theory Spec2Isabelle
  imports Main "HOL-Library.AList" "HOL-Library.List_Lexorder"
begin

section \<open>Strings and JavaScript collections\<close>

text \<open>
  A JavaScript string is a sequence of UTF-16 code units: \<open>length\<close>, \<open>===\<close>, \<open>slice\<close>,
  \<open>trim\<close> and the default \<open>sort\<close> all work on code units. A string is therefore a list
  of code units (natural numbers); \<open>js\<close> writes an ASCII literal of the source.
  Identifiers (user ids, socket ids, chat ids, ObjectIds in their string form) are strings.
\<close>

type_synonym jsstr = "nat list"

definition js :: "string \<Rightarrow> jsstr" where
  "js s = map of_char s"

text \<open>Truthiness of a possibly absent string field: \<open>null\<close>, \<open>undefined\<close> and \<open>''\<close> are falsy.\<close>

fun truthy :: "jsstr option \<Rightarrow> bool" where
  "truthy None = False"
| "truthy (Some v) = (v \<noteq> [])"

text \<open>
  \<open>String.prototype.trim\<close> removes the code units of WhiteSpace and LineTerminator from
  both ends.
\<close>

definition isWhiteSpace :: "nat \<Rightarrow> bool" where
  "isWhiteSpace c \<longleftrightarrow>
     c \<in> {9, 10, 11, 12, 13, 32, 160, 5760, 8232, 8233, 8239, 8287, 12288, 65279}
     \<or> (8192 \<le> c \<and> c \<le> 8202)"

definition trim :: "jsstr \<Rightarrow> jsstr" where
  "trim s = rev (dropWhile isWhiteSpace (rev (dropWhile isWhiteSpace s)))"

text \<open>
  A JavaScript \<open>Set\<close> keeps its elements in insertion order without duplicates; a \<open>Map\<close>
  is an association list in insertion order (\<open>AList.update\<close> replaces the value of a present
  key in place and appends an absent one, as \<open>Map.prototype.set\<close> does).
\<close>

definition set_add :: "'a \<Rightarrow> 'a list \<Rightarrow> 'a list" where
  "set_add x xs = (if x \<in> set xs then xs else xs @ [x])"

definition set_delete :: "'a \<Rightarrow> 'a list \<Rightarrow> 'a list" where
  "set_delete x xs = removeAll x xs"

section \<open>The persistence collaborator\<close>

text \<open>
  Documents of the three collections, with the fields the socket layer reads or writes.
  Timestamps are natural numbers. A thrown JavaScript error carries an optional numeric
  \<open>code\<close> (MongoDB's 11000 is the duplicate-key error) and a message.
\<close>

datatype js_error = Error (err_code: "nat option") (err_message: string)

record user_doc =
  u_id :: jsstr
  u_username :: jsstr
  u_avatarUrl :: "jsstr option"
  u_status :: "jsstr option"
  u_statusMessage :: jsstr
  u_lastSeen :: nat

record room_doc =
  r_id :: jsstr
  r_name :: "jsstr option"
  r_displayName :: "jsstr option"
  r_type :: jsstr
  r_owner :: "jsstr option"
  r_participants :: "jsstr list"
  r_lastActivity :: nat

record message_doc =
  m_id :: jsstr
  m_text :: jsstr
  m_sender :: jsstr
  m_chat :: jsstr
  m_createdAt :: nat

record db =
  users :: "user_doc list"
  rooms :: "room_doc list"
  messages :: "message_doc list"

text \<open>
  Every call into the collaborator may throw. The environment of one event says which call
  sites throw (and what), gives the clock reading and the fresh \<open>_id\<close> of a document created
  during the event, and lists the room documents that concurrent callers insert between the
  first query and the save of \<open>findOrCreateDirectMessage\<close>.
\<close>

datatype dbcall =
    DmFindFirst | DmSave | DmFindAgain
  | RoomFindOne | RoomSave | DmRoomFindById | DmParticipantsFind | DmPartnerFind
  | MessageFind | UserListFind | JoinUserListFind
  | TargetUserFind
  | ChatRefetch | MessageSave | RoomTouch | MessagePopulate | DmListUserFind
  | StatusUpdate | OfflineUpdate | OnlineUpdate | InitialRooms | InitialDms

record env =
  now :: nat
  newId :: jsstr
  throws :: "dbcall \<Rightarrow> js_error option"
  concurrent :: "room_doc list"

section \<open>Room.findOrCreateDirectMessage\<close>

text \<open>
  The query \<open>{type: 'direct', participants: {$all: participants, $size: 2}}\<close>: the first
  direct room whose participant array has exactly two entries and holds every queried id.
\<close>

definition findDirect :: "jsstr list \<Rightarrow> room_doc list \<Rightarrow> room_doc option" where
  "findDirect ps rs =
     find (\<lambda>r. r_type r = js ''direct'' \<and> list_all (\<lambda>p. p \<in> set (r_participants r)) ps
                \<and> length (r_participants r) = 2) rs"

definition newDirectRoom :: "env \<Rightarrow> jsstr list \<Rightarrow> room_doc" where
  "newDirectRoom e ps =
     \<lparr> r_id = newId e, r_name = None, r_displayName = None, r_type = js ''direct'',
       r_owner = None, r_participants = ps, r_lastActivity = now e \<rparr>"

text \<open>
  The result is the thrown error or \<open>(room, isNew)\<close>, together with the room collection
  after the call. The inner \<open>try\<close> around \<open>save\<close> catches the save error; every error raised
  inside the outer \<open>try\<close> is caught and rethrown wrapped.
\<close>

definition saveDirect ::
  "env \<Rightarrow> jsstr list \<Rightarrow> room_doc list \<Rightarrow> (js_error + room_doc \<times> bool) \<times> room_doc list" where
  "saveDirect e ps rs =
     (case throws e DmSave of
        None \<Rightarrow> (Inr (newDirectRoom e ps, True), rs @ [newDirectRoom e ps])
      | Some error \<Rightarrow>
          if err_code error = Some 11000 then
            (case throws e DmFindAgain of
               Some error2 \<Rightarrow> (Inl error2, rs)
             | None \<Rightarrow>
                 (case findDirect ps rs of
                    None \<Rightarrow> (Inl (Error None ''Server error: Could not find or create DM room.''), rs)
                  | Some dmRoom \<Rightarrow> (Inr (dmRoom, False), rs)))
          else (Inl error, rs))"

definition findOrCreateBody ::
  "env \<Rightarrow> jsstr list \<Rightarrow> room_doc list \<Rightarrow> (js_error + room_doc \<times> bool) \<times> room_doc list" where
  "findOrCreateBody e ps rs =
     (case throws e DmFindFirst of
        Some error \<Rightarrow> (Inl error, rs)
      | None \<Rightarrow>
          (case findDirect ps rs of
             Some dmRoom \<Rightarrow> (Inr (dmRoom, False), rs)
           | None \<Rightarrow> saveDirect e ps (rs @ concurrent e)))"

definition rethrowWrapped :: "js_error + 'a \<Rightarrow> js_error + 'a" where
  "rethrowWrapped r =
     (case r of
        Inl error \<Rightarrow>
          Inl (Error None (''Failed to find or create direct message: '' @ err_message error))
      | Inr v \<Rightarrow> Inr v)"

definition findOrCreateDirectMessage ::
  "env \<Rightarrow> room_doc list \<Rightarrow> jsstr \<Rightarrow> jsstr \<Rightarrow> (js_error + room_doc \<times> bool) \<times> room_doc list" where
  "findOrCreateDirectMessage e rs userId1 userId2 =
     (if userId1 = userId2 then
        (Inl (Error None ''Cannot create a direct message with oneself.''), rs)
      else
        (let participants = sort [userId1, userId2];
             (r, rs') = findOrCreateBody e participants rs
         in (rethrowWrapped r, rs')))"

section \<open>In-memory state and emitted events\<close>

text \<open>
  \<open>mongoose.Types.ObjectId.isValid\<close> on a string: taken as the 24 hexadecimal digits of an
  ObjectId's string form.
\<close>

definition isHexDigit :: "nat \<Rightarrow> bool" where
  "isHexDigit c \<longleftrightarrow> (48 \<le> c \<and> c \<le> 57) \<or> (97 \<le> c \<and> c \<le> 102) \<or> (65 \<le> c \<and> c \<le> 70)"

definition isValidObjectId :: "jsstr \<Rightarrow> bool" where
  "isValidObjectId v \<longleftrightarrow> length v = 24 \<and> list_all isHexDigit v"

record socketData =
  userId :: jsstr
  username :: jsstr
  currentChatId :: "jsstr option"
  currentChatType :: "jsstr option"

record chatInfo =
  chatName :: "jsstr option"
  chatType :: jsstr
  dbId :: jsstr
  members :: "jsstr list"

text \<open>Payloads. \<open>user_view\<close> is the object built by \<open>formatUserForClient\<close>.\<close>

record user_view =
  v_id :: "jsstr option"
  v_username :: jsstr
  v_avatarUrl :: jsstr
  v_status :: jsstr

record message_view =
  mv_sender :: user_view
  mv_text :: jsstr
  mv_timestamp :: nat

record chat_ref =
  c_type :: jsstr
  c_id :: jsstr

record chat_view =
  cv_type :: jsstr
  cv_id :: jsstr
  cv_name :: "jsstr option"
  cv_avatarUrl :: "jsstr option"

record dm_entry =
  dmRoomId :: jsstr
  otherUser :: "user_view option"
  lastMessageTimestamp :: nat
  hasUnread :: bool

record presence =
  p_userId :: jsstr
  p_username :: "jsstr option"
  p_avatarUrl :: "jsstr option"
  p_status :: jsstr
  p_statusMessage :: "jsstr option"
  p_lastSeen :: "nat option"

datatype event =
    ErrorMessage string
  | InitialData "jsstr option list" "dm_entry list"
  | JoinedChat chat_view "user_view list" "message_view list" bool
  | UserListUpdate jsstr "user_view list"
  | PresenceUpdate presence
  | Typing jsstr jsstr chat_ref
  | StopTyping jsstr chat_ref
  | ChatMessage message_view chat_ref
  | DmListUpdate dm_entry

text \<open>
  \<open>socket.emit\<close> and \<open>io.to(socketId).emit\<close> address one socket, \<open>io.to(room).emit\<close> every
  socket subscribed to the room, \<open>socket.to(room).emit\<close> every subscribed socket but the
  emitting one.
\<close>

datatype target = ToSocket jsstr | ToRoom jsstr | ToRoomExcept jsstr jsstr

text \<open>
  The process state: the three maps of \<open>index.js\<close>, the live sockets with the \<open>user\<close> object
  the authentication middleware attached to each, the Socket.IO room subscriptions, the
  database, and the log of emitted events (oldest first). A handler runs to completion
  before the next event is taken.
\<close>

record state =
  userSockets :: "(jsstr \<times> jsstr list) list"
  connectedSockets :: "(jsstr \<times> socketData) list"
  activeChats :: "(jsstr \<times> chatInfo) list"
  sockets :: "(jsstr \<times> user_doc) list"
  subscriptions :: "(jsstr \<times> jsstr) list"
  database :: db
  emitted :: "(target \<times> event) list"

definition emit :: "target \<Rightarrow> event \<Rightarrow> state \<Rightarrow> state" where
  "emit t ev s = s\<lparr>emitted := emitted s @ [(t, ev)]\<rparr>"

definition sendError :: "jsstr \<Rightarrow> string \<Rightarrow> state \<Rightarrow> state" where
  "sendError socketId message s = emit (ToSocket socketId) (ErrorMessage message) s"

text \<open>The sockets an emit reaches.\<close>

fun recipients :: "state \<Rightarrow> target \<Rightarrow> jsstr list" where
  "recipients s (ToSocket sid) = (if sid \<in> fst ` set (sockets s) then [sid] else [])"
| "recipients s (ToRoom room) = map fst (filter (\<lambda>(sid, r). r = room) (subscriptions s))"
| "recipients s (ToRoomExcept room sender) =
     map fst (filter (\<lambda>(sid, r). r = room \<and> sid \<noteq> sender) (subscriptions s))"

text \<open>\<open>a || b\<close> on a possibly absent string.\<close>

fun orElse :: "jsstr option \<Rightarrow> jsstr \<Rightarrow> jsstr" where
  "orElse None d = d"
| "orElse (Some v) d = (if v = [] then d else v)"

definition formatUserForClient :: "user_doc \<Rightarrow> user_view" where
  "formatUserForClient targetUser =
     \<lparr> v_id = Some (u_id targetUser),
       v_username = u_username targetUser,
       v_avatarUrl = orElse (u_avatarUrl targetUser) (js ''/uploads/avatars/default.png''),
       v_status = orElse (u_status targetUser) (js ''offline'') \<rparr>"

definition deletedUser :: user_view where
  "deletedUser =
     \<lparr> v_id = None, v_username = js ''[Deleted User]'',
       v_avatarUrl = js ''/uploads/avatars/default.png'', v_status = js ''offline'' \<rparr>"

definition findUserById :: "db \<Rightarrow> jsstr \<Rightarrow> user_doc option" where
  "findUserById d i = find (\<lambda>u. u_id u = i) (users d)"

definition findRoomById :: "db \<Rightarrow> jsstr \<Rightarrow> room_doc option" where
  "findRoomById d i = find (\<lambda>r. r_id r = i) (rooms d)"

definition findPublicRoom :: "db \<Rightarrow> jsstr \<Rightarrow> room_doc option" where
  "findPublicRoom d n = find (\<lambda>r. r_type r = js ''public'' \<and> r_name r = Some n) (rooms d)"

text \<open>\<open>User.find({_id: {$in: ids}})\<close>.\<close>

definition findUsersIn :: "db \<Rightarrow> jsstr list \<Rightarrow> user_doc list" where
  "findUsersIn d ids = filter (\<lambda>u. u_id u \<in> set ids) (users d)"

text \<open>
  \<open>findByIdAndUpdate\<close> on a user: applies the update to the first document with the id and
  returns the updated document, or returns \<open>null\<close> and changes nothing.
\<close>

fun updateFirst :: "('a \<Rightarrow> bool) \<Rightarrow> ('a \<Rightarrow> 'a) \<Rightarrow> 'a list \<Rightarrow> 'a list" where
  "updateFirst P f [] = []"
| "updateFirst P f (x # xs) = (if P x then f x # xs else x # updateFirst P f xs)"

definition updateUser :: "jsstr \<Rightarrow> (user_doc \<Rightarrow> user_doc) \<Rightarrow> db \<Rightarrow> user_doc option \<times> db" where
  "updateUser i f d =
     (map_option f (findUserById d i), d\<lparr>users := updateFirst (\<lambda>u. u_id u = i) f (users d)\<rparr>)"

definition updateRoom :: "jsstr \<Rightarrow> (room_doc \<Rightarrow> room_doc) \<Rightarrow> db \<Rightarrow> room_doc option \<times> db" where
  "updateRoom i f d =
     (map_option f (findRoomById d i), d\<lparr>rooms := updateFirst (\<lambda>r. r_id r = i) f (rooms d)\<rparr>)"

section \<open>Helpers of socketHandlers.js\<close>

text \<open>
  The module constants: \<open>MAX_MESSAGE_LENGTH\<close> is 1000; \<open>MESSAGE_HISTORY_LIMIT\<close> and
  \<open>DEFAULT_ROOM\<close> are read from the process environment.
\<close>

definition MAX_MESSAGE_LENGTH :: nat where
  "MAX_MESSAGE_LENGTH = 1000"

record config =
  MESSAGE_HISTORY_LIMIT :: nat
  DEFAULT_ROOM :: jsstr

text \<open>\<open>limit(n)\<close> of a MongoDB cursor: \<open>limit(0)\<close> sets no limit.\<close>

definition mongoLimit :: "nat \<Rightarrow> 'a list \<Rightarrow> 'a list" where
  "mongoLimit n xs = (if n = 0 then xs else take n xs)"

definition messageView :: "db \<Rightarrow> message_doc \<Rightarrow> message_view" where
  "messageView d msg =
     \<lparr> mv_sender = (case findUserById d (m_sender msg) of
                       Some sender \<Rightarrow> formatUserForClient sender
                     | None \<Rightarrow> deletedUser),
       mv_text = m_text msg,
       mv_timestamp = m_createdAt msg \<rparr>"

text \<open>
  \<open>Message.find({chat}).sort({createdAt: -1}).limit(N)\<close>: newest first, cut to the limit.
\<close>

definition newestMessages :: "nat \<Rightarrow> db \<Rightarrow> jsstr \<Rightarrow> message_doc list" where
  "newestMessages n d chatDbId =
     mongoLimit n (rev (sort_key m_createdAt (filter (\<lambda>m. m_chat m = chatDbId) (messages d))))"

definition getRecentMessages ::
  "config \<Rightarrow> env \<Rightarrow> jsstr \<Rightarrow> jsstr \<Rightarrow> state \<Rightarrow> message_view list \<times> state" where
  "getRecentMessages cfg e socketId chatDbId s =
     (if \<not> isValidObjectId chatDbId then ([], s)
      else
        (case throws e MessageFind of
           Some error \<Rightarrow> ([], sendError socketId ''Failed to load message history.'' s)
         | None \<Rightarrow>
             (map (messageView (database s))
                (rev (newestMessages (MESSAGE_HISTORY_LIMIT cfg) (database s) chatDbId)), s)))"

definition broadcastUserListUpdate :: "env \<Rightarrow> jsstr \<Rightarrow> state \<Rightarrow> state" where
  "broadcastUserListUpdate e roomId s =
     (case map_of (activeChats s) roomId of
        None \<Rightarrow> s
      | Some roomInfo \<Rightarrow>
          if chatType roomInfo \<noteq> js ''room'' then s
          else if members roomInfo \<noteq> [] then
            (case throws e UserListFind of
               Some error \<Rightarrow> emit (ToRoom roomId) (UserListUpdate roomId []) s
             | None \<Rightarrow>
                 emit (ToRoom roomId)
                   (UserListUpdate roomId
                      (map formatUserForClient
                         (findUsersIn (database s) (filter isValidObjectId (members roomInfo))))) s)
          else emit (ToRoom roomId) (UserListUpdate roomId []) s)"

definition joinPresence :: "user_doc \<Rightarrow> presence" where
  "joinPresence user =
     \<lparr> p_userId = u_id user, p_username = Some (u_username user),
       p_avatarUrl = u_avatarUrl user, p_status = orElse (u_status user) (js ''online''),
       p_statusMessage = None, p_lastSeen = None \<rparr>"

definition joinSocketToChat ::
  "env \<Rightarrow> jsstr \<Rightarrow> user_doc \<Rightarrow> jsstr \<Rightarrow> jsstr \<Rightarrow> jsstr option \<Rightarrow> jsstr \<Rightarrow> state \<Rightarrow> state" where
  "joinSocketToChat e socketId user chatId chatType' chatName' chatDbId s =
     (case map_of (connectedSockets s) socketId of
        None \<Rightarrow> s
      | Some socketData \<Rightarrow>
          (let s1 = s\<lparr>connectedSockets :=
                        AList.update socketId
                          (socketData\<lparr>currentChatId := Some chatId, currentChatType := Some chatType'\<rparr>)
                          (connectedSockets s)\<rparr>;
               s2 = s1\<lparr>subscriptions := set_add (socketId, chatId) (subscriptions s1)\<rparr>;
               chats = (if map_of (activeChats s2) chatId = None
                        then AList.update chatId
                               \<lparr>chatName = chatName', chatType = chatType', dbId = chatDbId, members = []\<rparr>
                               (activeChats s2)
                        else activeChats s2);
               s3 = s2\<lparr>activeChats :=
                         AList.map_entry chatId
                           (\<lambda>chat. chat\<lparr>members := set_add (u_id user) (members chat)\<rparr>) chats\<rparr>
           in if chatType' = js ''room''
              then emit (ToRoomExcept chatId socketId) (PresenceUpdate (joinPresence user))
                     (broadcastUserListUpdate e chatId s3)
              else s3))"

definition leaveCurrentChat :: "env \<Rightarrow> jsstr \<Rightarrow> user_doc \<Rightarrow> state \<Rightarrow> state" where
  "leaveCurrentChat e socketId user s =
     (case map_of (connectedSockets s) socketId of
        None \<Rightarrow> s
      | Some socketData \<Rightarrow>
          (case (currentChatId socketData, currentChatType socketData) of
             (Some chatId, Some chatType') \<Rightarrow>
               if chatId = [] \<or> chatType' = [] then s
               else
                 (let s1 = s\<lparr>subscriptions := set_delete (socketId, chatId) (subscriptions s)\<rparr>;
                      s2 = (case map_of (activeChats s1) chatId of
                              None \<Rightarrow> s1
                            | Some chatInfo \<Rightarrow>
                                (let remaining = set_delete (u_id user) (members chatInfo);
                                     s' = s1\<lparr>activeChats :=
                                               AList.map_entry chatId
                                                 (\<lambda>chat. chat\<lparr>members := remaining\<rparr>)
                                                 (activeChats s1)\<rparr>
                                 in if chatType' = js ''room'' \<and> remaining \<noteq> []
                                    then broadcastUserListUpdate e chatId s' else s'));
                      s3 = s2\<lparr>connectedSockets :=
                                AList.update socketId
                                  (socketData\<lparr>currentChatId := None, currentChatType := None\<rparr>)
                                  (connectedSockets s2)\<rparr>
                  in emit (ToRoom chatId)
                       (StopTyping (u_id user) \<lparr>c_type = chatType', c_id = chatId\<rparr>) s3)
           | _ \<Rightarrow> s))"

section \<open>broadcastPresenceUpdate (index.js)\<close>

definition usersToNotify :: "(jsstr \<times> chatInfo) list \<Rightarrow> jsstr \<Rightarrow> jsstr list" where
  "usersToNotify chats userId' =
     foldl (\<lambda>acc chatInfo.
              if userId' \<in> set (members chatInfo)
              then foldl (\<lambda>acc' memberId. if memberId \<noteq> userId' then set_add memberId acc' else acc')
                     acc (members chatInfo)
              else acc)
       [] (map snd chats)"

definition broadcastPresenceUpdate :: "jsstr \<Rightarrow> presence \<Rightarrow> state \<Rightarrow> state" where
  "broadcastPresenceUpdate userId' updateData s =
     foldl (\<lambda>s' notifyUserId.
              case map_of (userSockets s) notifyUserId of
                None \<Rightarrow> s'
              | Some targetSockets \<Rightarrow>
                  foldl (\<lambda>s'' socketId.
                           emit (ToSocket socketId)
                             (PresenceUpdate (updateData\<lparr>p_userId := userId'\<rparr>)) s'')
                    s' targetSockets)
       s (usersToNotify (activeChats s) userId')"

definition statusPresence :: "jsstr \<Rightarrow> jsstr option \<Rightarrow> nat \<Rightarrow> presence" where
  "statusPresence status statusMessage lastSeen =
     \<lparr> p_userId = [], p_username = None, p_avatarUrl = None, p_status = status,
       p_statusMessage = statusMessage, p_lastSeen = Some lastSeen \<rparr>"

section \<open>The join chat handler\<close>

record join_data =
  jd_type :: "jsstr option"
  jd_id :: "jsstr option"

record resolved_chat =
  chatIdForClient :: jsstr
  rc_chatName :: "jsstr option"
  chatAvatarUrl :: "jsstr option"
  chatDbId :: jsstr
  isNew :: bool

text \<open>The test \<open>/^[a-z0-9-_]+$/\<close>.\<close>

definition roomNameChar :: "nat \<Rightarrow> bool" where
  "roomNameChar c \<longleftrightarrow> (97 \<le> c \<and> c \<le> 122) \<or> (48 \<le> c \<and> c \<le> 57) \<or> c = 45 \<or> c = 95"

definition roomNameRegex :: "jsstr \<Rightarrow> bool" where
  "roomNameRegex v \<longleftrightarrow> v \<noteq> [] \<and> list_all roomNameChar v"

text \<open>
  \<open>id.charAt(0).toUpperCase() + id.slice(1)\<close>; it is applied to names that passed the test
  above, where \<open>toUpperCase\<close> only moves \<open>a-z\<close>.
\<close>

definition capitalize :: "jsstr \<Rightarrow> jsstr" where
  "capitalize v =
     (case v of [] \<Rightarrow> [] | c # cs \<Rightarrow> (if 97 \<le> c \<and> c \<le> 122 then c - 32 else c) # cs)"

definition errorMessageOr :: "js_error \<Rightarrow> string" where
  "errorMessageOr error = (if err_message error = [] then ''Server error'' else err_message error)"

definition joinFailure :: "js_error \<Rightarrow> string" where
  "joinFailure error = ''Failed to join chat: '' @ errorMessageOr error"

text \<open>\<open>new mongoose.Types.ObjectId(v)\<close> throws on a string that is no ObjectId.\<close>

definition objectIdError :: js_error where
  "objectIdError = Error None ''input must be a 24 character hex string, 12 byte Uint8Array, or an integer''"

definition newPublicRoom :: "env \<Rightarrow> jsstr \<Rightarrow> jsstr option \<Rightarrow> room_doc" where
  "newPublicRoom e requestedId owner =
     \<lparr> r_id = newId e, r_name = Some requestedId, r_displayName = Some (capitalize requestedId),
       r_type = js ''public'', r_owner = owner, r_participants = [], r_lastActivity = now e \<rparr>"

definition roomResolved :: "room_doc \<Rightarrow> bool \<Rightarrow> resolved_chat" where
  "roomResolved chatDoc created =
     \<lparr> chatIdForClient = (case r_name chatDoc of Some n \<Rightarrow> n | None \<Rightarrow> []),
       rc_chatName = r_displayName chatDoc, chatAvatarUrl = None,
       chatDbId = r_id chatDoc, isNew = created \<rparr>"

definition resolveRoom ::
  "env \<Rightarrow> user_doc \<Rightarrow> jsstr \<Rightarrow> db \<Rightarrow> (string + resolved_chat) \<times> db" where
  "resolveRoom e user requestedId d =
     (case throws e RoomFindOne of
        Some error \<Rightarrow> (Inl (joinFailure error), d)
      | None \<Rightarrow>
          (case findPublicRoom d requestedId of
             Some chatDoc \<Rightarrow> (Inr (roomResolved chatDoc False), d)
           | None \<Rightarrow>
               if length requestedId < 3 \<or> length requestedId > 20 \<or> \<not> roomNameRegex requestedId
               then (Inl ''Invalid room name format. Use lowercase letters, numbers, -, _ (3-20 chars).'', d)
               else
                 (case throws e RoomSave of
                    Some error \<Rightarrow> (Inl (joinFailure error), d)
                  | None \<Rightarrow>
                      (Inr (roomResolved (newPublicRoom e requestedId (Some (u_id user))) True),
                       d\<lparr>rooms := rooms d @ [newPublicRoom e requestedId (Some (u_id user))]\<rparr>))))"

text \<open>
  \<open>populate\<close> with \<open>match: {_id: {$ne: userId}}\<close>: the user documents of the other
  participants, in participant order, the missing ones left out.
\<close>

definition populatedOthers :: "db \<Rightarrow> jsstr \<Rightarrow> jsstr list \<Rightarrow> user_doc list" where
  "populatedOthers d uid ps =
     List.map_filter (\<lambda>p. if p \<noteq> uid then findUserById d p else None) ps"

definition dmResolved :: "room_doc \<Rightarrow> user_view \<Rightarrow> resolved_chat" where
  "dmResolved chatDoc otherParticipantDetails =
     \<lparr> chatIdForClient = r_id chatDoc,
       rc_chatName = Some (v_username otherParticipantDetails),
       chatAvatarUrl = Some (v_avatarUrl otherParticipantDetails),
       chatDbId = r_id chatDoc, isNew = False \<rparr>"

definition resolveDirect :: "env \<Rightarrow> user_doc \<Rightarrow> jsstr \<Rightarrow> db \<Rightarrow> string + resolved_chat" where
  "resolveDirect e user requestedId d =
     (if \<not> isValidObjectId requestedId then Inl ''Invalid DM identifier format.''
      else if \<not> isValidObjectId (u_id user) then Inl (joinFailure objectIdError)
      else
        (case throws e DmRoomFindById of
           Some error \<Rightarrow> Inl (joinFailure error)
         | None \<Rightarrow>
             (case findRoomById d requestedId of
                None \<Rightarrow> Inl ''Direct message chat not found.''
              | Some chatDoc \<Rightarrow>
                  if r_type chatDoc \<noteq> js ''direct'' then Inl ''Direct message chat not found.''
                  else
                    (case throws e DmParticipantsFind of
                       Some error \<Rightarrow> Inl (joinFailure error)
                     | None \<Rightarrow>
                         if u_id user \<notin> set (r_participants chatDoc)
                         then Inl ''Not authorized for this direct message.''
                         else
                           (case populatedOthers d (u_id user) (r_participants chatDoc) of
                              other # _ \<Rightarrow> Inr (dmResolved chatDoc (formatUserForClient other))
                            | [] \<Rightarrow>
                                (case find (\<lambda>i. i \<noteq> u_id user) (r_participants chatDoc) of
                                   None \<Rightarrow> Inl ''Error identifying DM partner.''
                                 | Some otherParticipantId \<Rightarrow>
                                     (case throws e DmPartnerFind of
                                        Some error \<Rightarrow> Inl (joinFailure error)
                                      | None \<Rightarrow>
                                          (case findUserById d otherParticipantId of
                                             None \<Rightarrow> Inl ''Error identifying DM partner.''
                                           | Some otherUserData \<Rightarrow>
                                               Inr (dmResolved chatDoc
                                                      (formatUserForClient otherUserData))))))))))"

definition usersInRoom :: "env \<Rightarrow> jsstr \<Rightarrow> state \<Rightarrow> user_view list" where
  "usersInRoom e chatId s =
     (case map_of (activeChats s) chatId of
        None \<Rightarrow> []
      | Some roomInfo \<Rightarrow>
          if members roomInfo = [] then []
          else if \<not> list_all isValidObjectId (members roomInfo) then []
          else
            (case throws e JoinUserListFind of
               Some error \<Rightarrow> []
             | None \<Rightarrow> map formatUserForClient (findUsersIn (database s) (members roomInfo))))"

definition completeJoin ::
  "config \<Rightarrow> env \<Rightarrow> jsstr \<Rightarrow> user_doc \<Rightarrow> jsstr \<Rightarrow> resolved_chat \<Rightarrow> state \<Rightarrow> state" where
  "completeJoin cfg e socketId user requestedType chat s =
     (let s1 = joinSocketToChat e socketId user (chatIdForClient chat) requestedType
                 (rc_chatName chat) (chatDbId chat) s;
          (recentMessages, s2) = getRecentMessages cfg e socketId (chatDbId chat) s1;
          usersInRoomData = (if requestedType = js ''room''
                             then usersInRoom e (chatIdForClient chat) s2 else [])
      in emit (ToSocket socketId)
           (JoinedChat
              \<lparr> cv_type = requestedType, cv_id = chatIdForClient chat,
                cv_name = rc_chatName chat, cv_avatarUrl = chatAvatarUrl chat \<rparr>
              usersInRoomData recentMessages (isNew chat)) s2)"

definition join_chat ::
  "config \<Rightarrow> env \<Rightarrow> jsstr \<Rightarrow> user_doc \<Rightarrow> join_data option \<Rightarrow> state \<Rightarrow> state" where
  "join_chat cfg e socketId user data s =
     (case data of
        None \<Rightarrow> sendError socketId ''Invalid join request data.'' s
      | Some d \<Rightarrow>
          (case (jd_type d, jd_id d) of
             (Some requestedType, Some requestedId) \<Rightarrow>
               if requestedType = [] \<or> requestedId = []
               then sendError socketId ''Invalid join request data.'' s
               else
                 (let s1 = leaveCurrentChat e socketId user s
                  in if requestedType = js ''room'' then
                       (case resolveRoom e user requestedId (database s1) of
                          (Inl message, d') \<Rightarrow> sendError socketId message (s1\<lparr>database := d'\<rparr>)
                        | (Inr chat, d') \<Rightarrow>
                            completeJoin cfg e socketId user requestedType chat
                              (s1\<lparr>database := d'\<rparr>))
                     else if requestedType = js ''direct'' then
                       (case resolveDirect e user requestedId (database s1) of
                          Inl message \<Rightarrow> sendError socketId message s1
                        | Inr chat \<Rightarrow> completeJoin cfg e socketId user requestedType chat s1)
                     else sendError socketId ''Invalid chat type specified.'' s1)
           | _ \<Rightarrow> sendError socketId ''Invalid join request data.'' s))"

section \<open>The initiate dm handler\<close>

definition startDmFailure :: "js_error \<Rightarrow> string" where
  "startDmFailure error = ''Failed to start DM: '' @ errorMessageOr error"

definition openDm ::
  "config \<Rightarrow> env \<Rightarrow> jsstr \<Rightarrow> user_doc \<Rightarrow> jsstr \<Rightarrow> user_doc \<Rightarrow> room_doc \<Rightarrow> bool \<Rightarrow> state \<Rightarrow> state" where
  "openDm cfg e socketId user targetUserId targetUser dmRoom created s =
     (let targetUserDetails = formatUserForClient targetUser;
          dmRoomId' = r_id dmRoom;
          chats = (if map_of (activeChats s) dmRoomId' = None
                   then AList.update dmRoomId'
                          \<lparr> chatName = Some (v_username targetUserDetails), chatType = js ''direct'',
                            dbId = r_id dmRoom, members = [u_id user, targetUserId] \<rparr>
                          (activeChats s)
                   else AList.map_entry dmRoomId'
                          (\<lambda>chat. chat\<lparr>members := set_add targetUserId
                                                       (set_add (u_id user) (members chat))\<rparr>)
                          (activeChats s));
          s1 = s\<lparr>activeChats := chats\<rparr>;
          s2 = leaveCurrentChat e socketId user s1;
          s3 = joinSocketToChat e socketId user dmRoomId' (js ''direct'')
                 (Some (v_username targetUserDetails)) (r_id dmRoom) s2;
          (recentMessages, s4) = getRecentMessages cfg e socketId (r_id dmRoom) s3;
          s5 = emit (ToSocket socketId)
                 (JoinedChat
                    \<lparr> cv_type = js ''direct'', cv_id = dmRoomId',
                      cv_name = Some (v_username targetUserDetails),
                      cv_avatarUrl = Some (v_avatarUrl targetUserDetails) \<rparr>
                    [] recentMessages created) s4
      in case map_of (userSockets s5) targetUserId of
           None \<Rightarrow> s5
         | Some targetSockets \<Rightarrow>
             foldl (\<lambda>s' targetSocketId.
                      emit (ToSocket targetSocketId)
                        (DmListUpdate
                           \<lparr> dmRoomId = dmRoomId', otherUser = Some (formatUserForClient user),
                             lastMessageTimestamp = r_lastActivity dmRoom, hasUnread = created \<rparr>) s')
               s5 targetSockets)"

definition initiate_dm ::
  "config \<Rightarrow> env \<Rightarrow> jsstr \<Rightarrow> user_doc \<Rightarrow> jsstr option \<Rightarrow> state \<Rightarrow> state" where
  "initiate_dm cfg e socketId user target s =
     (case target of
        None \<Rightarrow> sendError socketId ''Invalid target user for DM.'' s
      | Some targetUserId \<Rightarrow>
          if targetUserId = [] \<or> targetUserId = u_id user
          then sendError socketId ''Invalid target user for DM.'' s
          else if \<not> isValidObjectId targetUserId
          then sendError socketId ''Invalid target user ID format.'' s
          else
            (case throws e TargetUserFind of
               Some error \<Rightarrow> sendError socketId (startDmFailure error) s
             | None \<Rightarrow>
                 (case findUserById (database s) targetUserId of
                    None \<Rightarrow> sendError socketId ''The user you tried to message does not exist.'' s
                  | Some targetUser \<Rightarrow>
                      (case findOrCreateDirectMessage e (rooms (database s)) (u_id user) targetUserId of
                         (Inl error, rs) \<Rightarrow>
                           sendError socketId (startDmFailure error)
                             (s\<lparr>database := (database s)\<lparr>rooms := rs\<rparr>\<rparr>)
                       | (Inr (dmRoom, created), rs) \<Rightarrow>
                           openDm cfg e socketId user targetUserId targetUser dmRoom created
                             (s\<lparr>database := (database s)\<lparr>rooms := rs\<rparr>\<rparr>)))))"

section \<open>The chat message handler\<close>

record msg_data =
  md_text :: "jsstr option"
  md_chat :: "chat_ref option"

text \<open>
  The database id of the current chat: from \<open>activeChats\<close>, else refetched (an entry's
  \<open>dbId\<close> is an ObjectId, which is always truthy).
\<close>

definition lookupChatDbId :: "env \<Rightarrow> jsstr \<Rightarrow> jsstr \<Rightarrow> state \<Rightarrow> jsstr option" where
  "lookupChatDbId e chatId chatType' s =
     (case map_of (activeChats s) chatId of
        Some chatInfo \<Rightarrow> Some (dbId chatInfo)
      | None \<Rightarrow>
          (case throws e ChatRefetch of
             Some error \<Rightarrow> None
           | None \<Rightarrow>
               map_option r_id
                 (if chatType' = js ''room'' then findPublicRoom (database s) chatId
                  else findRoomById (database s) chatId)))"

definition dmListNotify ::
  "env \<Rightarrow> user_doc \<Rightarrow> user_view \<Rightarrow> jsstr \<Rightarrow> nat \<Rightarrow> state \<Rightarrow> jsstr \<Rightarrow> state" where
  "dmListNotify e user sender chatId timestamp s participantId =
     (case map_of (userSockets s) participantId of
        None \<Rightarrow> s
      | Some targetSockets \<Rightarrow>
          if targetSockets = [] then s
          else
            (let notify = (\<lambda>otherUserDetails.
                   foldl (\<lambda>s' targetSocketId.
                            emit (ToSocket targetSocketId)
                              (DmListUpdate
                                 \<lparr> dmRoomId = chatId, otherUser = otherUserDetails,
                                   lastMessageTimestamp = timestamp,
                                   hasUnread = (participantId \<noteq> u_id user) \<rparr>) s')
                     s targetSockets)
             in if participantId = u_id user then notify (Some sender)
                else
                  (case throws e DmListUserFind of
                     Some error \<Rightarrow> s
                   | None \<Rightarrow>
                       notify (map_option formatUserForClient
                                 (findUserById (database s) participantId)))))"

definition sendFailure :: string where
  "sendFailure = ''Server error: Could not send your message.''"

definition deliverMessage ::
  "env \<Rightarrow> jsstr \<Rightarrow> user_doc \<Rightarrow> jsstr \<Rightarrow> jsstr \<Rightarrow> jsstr \<Rightarrow> state \<Rightarrow> state" where
  "deliverMessage e socketId user chatId chatType' messageText s =
     (case lookupChatDbId e chatId chatType' s of
        None \<Rightarrow> sendError socketId sendFailure s
      | Some chatDbId' \<Rightarrow>
          (case throws e MessageSave of
             Some error \<Rightarrow> sendError socketId sendFailure s
           | None \<Rightarrow>
               (let savedMessage =
                      \<lparr> m_id = newId e, m_text = messageText, m_sender = u_id user,
                        m_chat = chatDbId', m_createdAt = now e \<rparr>;
                    d1 = (database s)\<lparr>messages := messages (database s) @ [savedMessage]\<rparr>
                in case throws e RoomTouch of
                     Some error \<Rightarrow> sendError socketId sendFailure (s\<lparr>database := d1\<rparr>)
                   | None \<Rightarrow>
                       (let (updatedRoom, d2) =
                              updateRoom chatDbId'
                                (\<lambda>r. r\<lparr>r_lastActivity := m_createdAt savedMessage\<rparr>) d1
                        in case throws e MessagePopulate of
                             Some error \<Rightarrow> sendError socketId sendFailure (s\<lparr>database := d2\<rparr>)
                           | None \<Rightarrow>
                               (let sender = (case findUserById d2 (u_id user) of
                                                Some u \<Rightarrow> formatUserForClient u
                                              | None \<Rightarrow> formatUserForClient user);
                                    broadcastData =
                                      \<lparr> mv_sender = sender, mv_text = messageText,
                                        mv_timestamp = m_createdAt savedMessage \<rparr>;
                                    s1 = emit (ToRoom chatId)
                                           (ChatMessage broadcastData
                                              \<lparr>c_type = chatType', c_id = chatId\<rparr>)
                                           (s\<lparr>database := d2\<rparr>)
                                in if chatType' = js ''direct'' then
                                     (case updatedRoom of
                                        None \<Rightarrow> s1
                                      | Some room \<Rightarrow>
                                          foldl (dmListNotify e user sender chatId
                                                   (m_createdAt savedMessage))
                                            s1 (r_participants room))
                                   else s1)))))"

definition chat_message :: "env \<Rightarrow> jsstr \<Rightarrow> user_doc \<Rightarrow> msg_data option \<Rightarrow> state \<Rightarrow> state" where
  "chat_message e socketId user msgData s =
     (case map_of (connectedSockets s) socketId of
        None \<Rightarrow> sendError socketId ''Cannot send message: You are not currently in a chat.'' s
      | Some socketData \<Rightarrow>
          if \<not> truthy (currentChatId socketData) \<or> \<not> truthy (currentChatType socketData)
          then sendError socketId ''Cannot send message: You are not currently in a chat.'' s
          else
            (case msgData of
               None \<Rightarrow> sendError socketId ''Invalid message format received.'' s
             | Some m \<Rightarrow>
                 (case (md_text m, md_chat m) of
                    (Some text, Some chat) \<Rightarrow>
                      if Some (c_type chat) \<noteq> currentChatType socketData
                         \<or> Some (c_id chat) \<noteq> currentChatId socketData
                      then sendError socketId ''Message target mismatch. Please rejoin the chat.'' s
                      else
                        (let messageText = trim text
                         in if messageText = [] \<or> length messageText > MAX_MESSAGE_LENGTH
                            then sendError socketId
                                   ''Message is empty or too long (max 1000 chars).'' s
                            else deliverMessage e socketId user (c_id chat) (c_type chat)
                                   messageText s)
                  | _ \<Rightarrow> sendError socketId ''Invalid message format received.'' s)))"

section \<open>Typing indicators, status updates, disconnect\<close>

text \<open>The argument is \<open>data?.chat?.id\<close>.\<close>

definition typingRelay ::
  "(chat_ref \<Rightarrow> event) \<Rightarrow> jsstr \<Rightarrow> jsstr option \<Rightarrow> state \<Rightarrow> state" where
  "typingRelay mk socketId claimed s =
     (case map_of (connectedSockets s) socketId of
        None \<Rightarrow> s
      | Some socketData \<Rightarrow>
          (case currentChatId socketData of
             None \<Rightarrow> s
           | Some chatId \<Rightarrow>
               if chatId \<noteq> [] \<and> claimed = Some chatId
               then emit (ToRoomExcept chatId socketId)
                      (mk \<lparr> c_type = (case currentChatType socketData of Some t \<Rightarrow> t | None \<Rightarrow> []),
                           c_id = chatId \<rparr>) s
               else s))"

definition typing :: "jsstr \<Rightarrow> user_doc \<Rightarrow> jsstr option \<Rightarrow> state \<Rightarrow> state" where
  "typing socketId user claimed s =
     typingRelay (Typing (u_id user) (u_username user)) socketId claimed s"

definition stop_typing :: "jsstr \<Rightarrow> user_doc \<Rightarrow> jsstr option \<Rightarrow> state \<Rightarrow> state" where
  "stop_typing socketId user claimed s =
     typingRelay (StopTyping (u_id user)) socketId claimed s"

record status_data =
  sd_status :: "jsstr option"
  sd_statusMessage :: "jsstr option"

definition validStatuses :: "jsstr list" where
  "validStatuses = [js ''online'', js ''away'', js ''dnd'']"

definition set_status :: "env \<Rightarrow> jsstr \<Rightarrow> user_doc \<Rightarrow> status_data option \<Rightarrow> state \<Rightarrow> state" where
  "set_status e socketId user data s =
     (if \<not> truthy (Option.bind data sd_status)
      then sendError socketId ''Invalid status update data.'' s
      else
        (let newStatus = (case Option.bind data sd_status of
                            Some status \<Rightarrow> if status \<in> set validStatuses then status else js ''online''
                          | None \<Rightarrow> js ''online'');
             newStatusMessage =
               take 60 (trim (case Option.bind data sd_statusMessage of Some m \<Rightarrow> m | None \<Rightarrow> []))
         in case throws e StatusUpdate of
              Some error \<Rightarrow> sendError socketId ''Failed to update status on server.'' s
            | None \<Rightarrow>
                (case updateUser (u_id user)
                        (\<lambda>u. u\<lparr>u_status := Some newStatus, u_statusMessage := newStatusMessage,
                                u_lastSeen := now e\<rparr>) (database s) of
                   (None, d') \<Rightarrow> sendError socketId ''Failed to update status: User not found.'' s
                 | (Some updatedUser, d') \<Rightarrow>
                     broadcastPresenceUpdate (u_id user)
                       (statusPresence newStatus (Some newStatusMessage) (u_lastSeen updatedUser))
                       (s\<lparr>database := d',
                          sockets := AList.map_entry socketId
                                       (\<lambda>u. u\<lparr>u_status := Some newStatus,
                                               u_statusMessage := newStatusMessage,
                                               u_lastSeen := u_lastSeen updatedUser\<rparr>)
                                       (sockets s)\<rparr>))))"

text \<open>
  When the \<open>disconnect\<close> event fires, Socket.IO has already taken the socket out of its
  rooms; the socket object is gone once the server state has been updated.
\<close>

definition disconnect :: "env \<Rightarrow> jsstr \<Rightarrow> user_doc \<Rightarrow> state \<Rightarrow> state" where
  "disconnect e socketId user s =
     (let s0 = s\<lparr>subscriptions := filter (\<lambda>(sid, r). sid \<noteq> socketId) (subscriptions s)\<rparr>;
          s1 = leaveCurrentChat e socketId user s0;
          (wasLastConnection, us) =
            (case map_of (userSockets s1) (u_id user) of
               None \<Rightarrow> (False, userSockets s1)
             | Some userSocketSet \<Rightarrow>
                 if set_delete socketId userSocketSet = []
                 then (True, AList.delete (u_id user) (userSockets s1))
                 else (False, AList.map_entry (u_id user) (set_delete socketId) (userSockets s1)));
          s2 = s1\<lparr>userSockets := us,
                  connectedSockets := AList.delete socketId (connectedSockets s1),
                  sockets := AList.delete socketId (sockets s1)\<rparr>
      in if wasLastConnection then
           (case throws e OfflineUpdate of
              Some dbError \<Rightarrow> s2
            | None \<Rightarrow>
                (case updateUser (u_id user)
                        (\<lambda>u. u\<lparr>u_status := Some (js ''offline''), u_lastSeen := now e\<rparr>)
                        (database s2) of
                   (None, d') \<Rightarrow> s2
                 | (Some updatedUser, d') \<Rightarrow>
                     broadcastPresenceUpdate (u_id user)
                       (statusPresence (js ''offline'') None (u_lastSeen updatedUser))
                       (s2\<lparr>database := d'\<rparr>)))
         else s2)"

section \<open>Connection and startup (index.js)\<close>

definition initialDms :: "db \<Rightarrow> jsstr \<Rightarrow> dm_entry list" where
  "initialDms d uid =
     List.map_filter
       (\<lambda>dm. case populatedOthers d uid (r_participants dm) of
                [] \<Rightarrow> None
              | other # _ \<Rightarrow>
                  Some \<lparr> dmRoomId = r_id dm, otherUser = Some (formatUserForClient other),
                         lastMessageTimestamp = r_lastActivity dm, hasUnread = False \<rparr>)
       (rev (sort_key r_lastActivity
               (filter (\<lambda>r. r_type r = js ''direct'' \<and> uid \<in> set (r_participants r)) (rooms d))))"

definition sendInitialData :: "env \<Rightarrow> jsstr \<Rightarrow> user_doc \<Rightarrow> state \<Rightarrow> state" where
  "sendInitialData e socketId user s =
     (if throws e InitialRooms \<noteq> None \<or> \<not> isValidObjectId (u_id user)
         \<or> throws e InitialDms \<noteq> None
      then emit (ToSocket socketId)
             (ErrorMessage ''Failed to load initial chat data. Please refresh.'') s
      else emit (ToSocket socketId)
             (InitialData
                (map r_name (filter (\<lambda>r. r_type r = js ''public'') (rooms (database s))))
                (initialDms (database s) (u_id user))) s)"

definition handleUserConnect :: "env \<Rightarrow> jsstr \<Rightarrow> user_doc \<Rightarrow> state \<Rightarrow> state" where
  "handleUserConnect e socketId user s =
     (if map_option length (map_of (userSockets s) (u_id user)) = Some 1 then
        (case throws e OnlineUpdate of
           Some error \<Rightarrow> sendInitialData e socketId user s
         | None \<Rightarrow>
             (case updateUser (u_id user)
                     (\<lambda>u. u\<lparr>u_status := Some (js ''online''), u_lastSeen := now e\<rparr>) (database s) of
                (None, d') \<Rightarrow> s
              | (Some updatedUser, d') \<Rightarrow>
                  sendInitialData e socketId user
                    (broadcastPresenceUpdate (u_id user)
                       (statusPresence (js ''online'') None (u_lastSeen updatedUser))
                       (s\<lparr>database := d'\<rparr>))))
      else sendInitialData e socketId user s)"

text \<open>
  A connection whose \<open>socket.user\<close> is missing or has no id is disconnected before anything
  is stored.
\<close>

definition connection :: "env \<Rightarrow> jsstr \<Rightarrow> user_doc option \<Rightarrow> state \<Rightarrow> state" where
  "connection e socketId socketUser s =
     (case socketUser of
        None \<Rightarrow> s
      | Some user \<Rightarrow>
          if u_id user = [] then s
          else
            (let us = (if map_of (userSockets s) (u_id user) = None
                       then AList.update (u_id user) [] (userSockets s) else userSockets s);
                 s1 = s\<lparr>userSockets := AList.map_entry (u_id user) (set_add socketId) us,
                         connectedSockets :=
                           AList.update socketId
                             \<lparr> userId = u_id user, username = u_username user,
                               currentChatId = None, currentChatType = None \<rparr>
                             (connectedSockets s),
                         sockets := AList.update socketId user (sockets s)\<rparr>
             in handleUserConnect e socketId user s1))"

text \<open>
  \<open>ensureDefaultRoom\<close> at startup; \<open>None\<close> is \<open>process.exit(1)\<close>. The process starts with
  the three maps empty.
\<close>

definition emptyState :: "db \<Rightarrow> state" where
  "emptyState d =
     \<lparr> userSockets = [], connectedSockets = [], activeChats = [], sockets = [],
       subscriptions = [], database = d, emitted = [] \<rparr>"

definition ensureDefaultRoom :: "config \<Rightarrow> env \<Rightarrow> state \<Rightarrow> state option" where
  "ensureDefaultRoom cfg e s =
     (case throws e RoomFindOne of
        Some error \<Rightarrow> None
      | None \<Rightarrow>
          (let load = (\<lambda>room s'.
                 if map_of (activeChats s') (DEFAULT_ROOM cfg) = None
                 then s'\<lparr>activeChats :=
                           AList.update (DEFAULT_ROOM cfg)
                             \<lparr> chatName = r_displayName room, chatType = js ''room'',
                               dbId = r_id room, members = [] \<rparr>
                             (activeChats s')\<rparr>
                 else s')
           in case findPublicRoom (database s) (DEFAULT_ROOM cfg) of
                Some room \<Rightarrow> Some (load room s)
              | None \<Rightarrow>
                  (case throws e RoomSave of
                     Some error \<Rightarrow> None
                   | None \<Rightarrow>
                       Some (load (newPublicRoom e (DEFAULT_ROOM cfg) None)
                               (s\<lparr>database := (database s)
                                    \<lparr>rooms := rooms (database s)
                                               @ [newPublicRoom e (DEFAULT_ROOM cfg) None]\<rparr>\<rparr>)))))"

definition startup :: "config \<Rightarrow> env \<Rightarrow> db \<Rightarrow> state option" where
  "startup cfg e d = ensureDefaultRoom cfg e (emptyState d)"

section \<open>Events\<close>

text \<open>
  One event of a socket with the environment it runs in. Events arrive on live sockets
  only, and a new connection has a socket id no live socket has.
\<close>

datatype request =
    Connection "user_doc option"
  | JoinChat "join_data option"
  | InitiateDm "jsstr option"
  | SendMessage "msg_data option"
  | TypingReq "jsstr option"
  | StopTypingReq "jsstr option"
  | SetStatus "status_data option"
  | Disconnect

fun handle :: "config \<Rightarrow> env \<Rightarrow> jsstr \<Rightarrow> user_doc \<Rightarrow> request \<Rightarrow> state \<Rightarrow> state" where
  "handle cfg e socketId user (Connection u) s = s"
| "handle cfg e socketId user (JoinChat data) s = join_chat cfg e socketId user data s"
| "handle cfg e socketId user (InitiateDm target) s = initiate_dm cfg e socketId user target s"
| "handle cfg e socketId user (SendMessage msgData) s = chat_message e socketId user msgData s"
| "handle cfg e socketId user (TypingReq claimed) s = typing socketId user claimed s"
| "handle cfg e socketId user (StopTypingReq claimed) s = stop_typing socketId user claimed s"
| "handle cfg e socketId user (SetStatus data) s = set_status e socketId user data s"
| "handle cfg e socketId user Disconnect s = disconnect e socketId user s"

definition step :: "config \<Rightarrow> jsstr \<times> request \<times> env \<Rightarrow> state \<Rightarrow> state" where
  "step cfg ev s =
     (case ev of (socketId, req, e) \<Rightarrow>
        (case map_of (sockets s) socketId of
           None \<Rightarrow> (case req of Connection u \<Rightarrow> connection e socketId u s | _ \<Rightarrow> s)
         | Some user \<Rightarrow> handle cfg e socketId user req s))"

fun run :: "config \<Rightarrow> (jsstr \<times> request \<times> env) list \<Rightarrow> state \<Rightarrow> state" where
  "run cfg [] s = s"
| "run cfg (ev # evs) s = run cfg evs (step cfg ev s)"

section \<open>Notions used to state the properties\<close>

text \<open>The events a handler appended to the log.\<close>

definition newEmits :: "state \<Rightarrow> state \<Rightarrow> (target \<times> event) list" where
  "newEmits s s' = drop (length (emitted s)) (emitted s')"

text \<open>The presence updates among emitted events.\<close>

definition presenceEvents :: "(target \<times> event) list \<Rightarrow> (target \<times> event) list" where
  "presenceEvents evs = filter (\<lambda>(t, ev). case ev of PresenceUpdate p \<Rightarrow> True | _ \<Rightarrow> False) evs"

text \<open>
  The presence events for the notified users \<open>vs\<close>: one per socket that \<open>userSockets\<close>
  lists for each of them.
\<close>

definition presenceEmits ::
  "(jsstr \<times> jsstr list) list \<Rightarrow> jsstr list \<Rightarrow> presence \<Rightarrow> (target \<times> event) list" where
  "presenceEmits us vs payload =
     concat (map (\<lambda>v. case map_of us v of
                         None \<Rightarrow> []
                       | Some targetSockets \<Rightarrow>
                           map (\<lambda>socketId. (ToSocket socketId, PresenceUpdate payload)) targetSockets)
               vs)"

definition membersOf :: "state \<Rightarrow> jsstr \<Rightarrow> jsstr list" where
  "membersOf s c = (case map_of (activeChats s) c of None \<Rightarrow> [] | Some chat \<Rightarrow> members chat)"

text \<open>Identity \<open>u\<close> owns a live connection whose current chat is \<open>c\<close>.\<close>

definition attachedTo :: "state \<Rightarrow> jsstr \<Rightarrow> jsstr \<Rightarrow> bool" where
  "attachedTo s c u =
     list_ex (\<lambda>i. case map_of (connectedSockets s) i of
                     Some sd \<Rightarrow> userId sd = u \<and> currentChatId sd = Some c
                   | None \<Rightarrow> False)
       (map fst (connectedSockets s))"

text \<open>Identity \<open>u\<close> is a participant of the persisted direct conversation with id \<open>c\<close>.\<close>

definition dmParticipant :: "db \<Rightarrow> jsstr \<Rightarrow> jsstr \<Rightarrow> bool" where
  "dmParticipant d c u =
     list_ex (\<lambda>r. r_type r = js ''direct'' \<and> r_id r = c \<and> u \<in> set (r_participants r)) (rooms d)"

text \<open>No two live connections have the same owner.\<close>

definition single :: "state \<Rightarrow> bool" where
  "single s =
     list_all (\<lambda>i. list_all (\<lambda>j. map_option userId (map_of (connectedSockets s) i)
                                    = map_option userId (map_of (connectedSockets s) j)
                                  \<longrightarrow> i = j)
                      (map fst (connectedSockets s)))
       (map fst (connectedSockets s))"

fun singleThroughout :: "config \<Rightarrow> (jsstr \<times> request \<times> env) list \<Rightarrow> state \<Rightarrow> bool" where
  "singleThroughout cfg [] s = single s"
| "singleThroughout cfg (ev # evs) s = (single s \<and> singleThroughout cfg evs (step cfg ev s))"

text \<open>
  Invariants of the reachable states behind the membership properties: the owner recorded
  for a socket is the id of the socket's user; a socket with a current chat id has a
  non-empty chat type, and an empty chat id only as the id of a direct conversation its
  owner participates in.
\<close>

definition ownerAgrees :: "state \<Rightarrow> bool" where
  "ownerAgrees s \<longleftrightarrow>
     (\<forall>i sd. map_of (connectedSockets s) i = Some sd \<longrightarrow>
        (\<exists>u. map_of (sockets s) i = Some u \<and> u_id u = userId sd))"

definition attachmentShape :: "state \<Rightarrow> bool" where
  "attachmentShape s \<longleftrightarrow>
     (\<forall>i sd c. map_of (connectedSockets s) i = Some sd \<and> currentChatId sd = Some c \<longrightarrow>
        (\<exists>t. currentChatType sd = Some t \<and> t \<noteq> [])
        \<and> (c = [] \<longrightarrow> dmParticipant (database s) [] (userId sd)))"

definition membersAccounted :: "state \<Rightarrow> bool" where
  "membersAccounted s \<longleftrightarrow>
     (\<forall>c u. u \<in> set (membersOf s c) \<longrightarrow> attachedTo s c u \<or> dmParticipant (database s) c u)"

definition attachedAreMembers :: "state \<Rightarrow> bool" where
  "attachedAreMembers s \<longleftrightarrow> (\<forall>c u. attachedTo s c u \<longrightarrow> u \<in> set (membersOf s c))"

text \<open>
  The two ways in which a member set can disagree with the attachments: a member that owns
  no connection attached to the chat, and an owner of an attached connection that is no
  member.
\<close>

definition strayMember :: "state \<Rightarrow> jsstr \<Rightarrow> jsstr \<Rightarrow> bool" where
  "strayMember s c u \<longleftrightarrow> u \<in> set (membersOf s c) \<and> \<not> attachedTo s c u"

definition missingMember :: "state \<Rightarrow> jsstr \<Rightarrow> jsstr \<Rightarrow> bool" where
  "missingMember s c u \<longleftrightarrow> attachedTo s c u \<and> u \<notin> set (membersOf s c)"

definition wellFormed :: "state \<Rightarrow> bool" where
  "wellFormed s \<longleftrightarrow> ownerAgrees s \<and> attachmentShape s \<and> membersAccounted s"

text \<open>After the leave sequence a socket has no current chat, or the empty chat id.\<close>

definition detached :: "state \<Rightarrow> jsstr \<Rightarrow> bool" where
  "detached s i \<longleftrightarrow>
     (\<forall>sd c. map_of (connectedSockets s) i = Some sd \<and> currentChatId sd = Some c \<longrightarrow> c = [])"

subsection \<open>Room documents over time\<close>

text \<open>
  The socket layer never deletes a room document and rewrites only \<open>lastActivity\<close>: a later
  room collection holds, position by position, the same rooms, followed by new ones.
\<close>

definition sameRoom :: "room_doc \<Rightarrow> room_doc \<Rightarrow> bool" where
  "sameRoom r r' \<longleftrightarrow>
     r_id r' = r_id r \<and> r_name r' = r_name r \<and> r_displayName r' = r_displayName r
     \<and> r_type r' = r_type r \<and> r_owner r' = r_owner r \<and> r_participants r' = r_participants r"

definition roomsGrow :: "room_doc list \<Rightarrow> room_doc list \<Rightarrow> bool" where
  "roomsGrow rs rs' \<longleftrightarrow> (\<exists>ys zs. rs' = ys @ zs \<and> list_all2 sameRoom rs ys)"

text \<open>The fields of an \<open>activeChats\<close> entry other than its member set.\<close>

definition chatMeta :: "state \<Rightarrow> jsstr \<Rightarrow> (jsstr option \<times> jsstr \<times> jsstr) option" where
  "chatMeta s c =
     map_option (\<lambda>chat. (chatName chat, chatType chat, dbId chat)) (map_of (activeChats s) c)"

subsection \<open>The direct-conversation resolver as the specification words it\<close>

text \<open>
  \<open>findOrCreate(identityA, identityB)\<close>: \<open>InvalidPair\<close> for equal identities; otherwise the
  pair is sorted and looked up; an absent conversation is created; a creation that fails
  with a uniqueness violation is answered by one more lookup, whose result is returned as
  not created, and \<open>InconsistentState\<close> if that lookup finds nothing. Any other failure of
  the collaborator is passed on.
\<close>

datatype resolution =
    InvalidPair
  | Existing room_doc
  | Created room_doc
  | RaceRecovered room_doc
  | InconsistentState
  | CollaboratorFailure js_error

definition resolverSpec :: "env \<Rightarrow> room_doc list \<Rightarrow> jsstr \<Rightarrow> jsstr \<Rightarrow> resolution" where
  "resolverSpec e rs identityA identityB =
     (if identityA = identityB then InvalidPair
      else
        (let pair = (if identityA \<le> identityB then [identityA, identityB]
                     else [identityB, identityA])
         in case throws e DmFindFirst of
              Some err \<Rightarrow> CollaboratorFailure err
            | None \<Rightarrow>
                (case findDirect pair rs of
                   Some r \<Rightarrow> Existing r
                 | None \<Rightarrow>
                     (case throws e DmSave of
                        None \<Rightarrow> Created (newDirectRoom e pair)
                      | Some err \<Rightarrow>
                          if err_code err \<noteq> Some 11000 then CollaboratorFailure err
                          else
                            (case throws e DmFindAgain of
                               Some err2 \<Rightarrow> CollaboratorFailure err2
                             | None \<Rightarrow>
                                 (case findDirect pair (rs @ concurrent e) of
                                    Some r \<Rightarrow> RaceRecovered r
                                  | None \<Rightarrow> InconsistentState))))))"

text \<open>What the caller of the source function sees for each outcome.\<close>

fun resolutionResult :: "resolution \<Rightarrow> js_error + room_doc \<times> bool" where
  "resolutionResult InvalidPair = Inl (Error None ''Cannot create a direct message with oneself.'')"
| "resolutionResult (Existing r) = Inr (r, False)"
| "resolutionResult (Created r) = Inr (r, True)"
| "resolutionResult (RaceRecovered r) = Inr (r, False)"
| "resolutionResult InconsistentState =
     Inl (Error None (''Failed to find or create direct message: ''
                      @ ''Server error: Could not find or create DM room.''))"
| "resolutionResult (CollaboratorFailure err) =
     Inl (Error None (''Failed to find or create direct message: '' @ err_message err))"

subsection \<open>A small deployment for the examples\<close>

text \<open>
  Two registered users and the default room \<open>general\<close>. In \<open>lobby\<close> each user has one
  socket (\<open>s1\<close> for alice, \<open>s2\<close> for bob) and both sockets have joined \<open>general\<close>.
\<close>

definition quietEnv :: env where
  "quietEnv =
     \<lparr> now = 5, newId = js ''aaaaaaaaaaaaaaaaaaaaaaaa'', throws = (\<lambda>_. None), concurrent = [] \<rparr>"

definition laterEnv :: env where
  "laterEnv =
     \<lparr> now = 9, newId = js ''bbbbbbbbbbbbbbbbbbbbbbbb'', throws = (\<lambda>_. None), concurrent = [] \<rparr>"

definition demoConfig :: config where
  "demoConfig = \<lparr> MESSAGE_HISTORY_LIMIT = 50, DEFAULT_ROOM = js ''general'' \<rparr>"

definition demoUser :: "string \<Rightarrow> string \<Rightarrow> string \<Rightarrow> nat \<Rightarrow> user_doc" where
  "demoUser i n st seen =
     \<lparr> u_id = js i, u_username = js n, u_avatarUrl = None, u_status = Some (js st),
       u_statusMessage = [], u_lastSeen = seen \<rparr>"

definition aliceId :: jsstr where
  "aliceId = js ''111111111111111111111111''"

definition bobId :: jsstr where
  "bobId = js ''222222222222222222222222''"

definition alice :: user_doc where
  "alice = demoUser ''111111111111111111111111'' ''alice'' ''offline'' 0"

definition bob :: user_doc where
  "bob = demoUser ''222222222222222222222222'' ''bob'' ''offline'' 0"

definition demoDb :: db where
  "demoDb = \<lparr> users = [alice, bob], rooms = [], messages = [] \<rparr>"

definition joinRoom :: "string \<Rightarrow> request" where
  "joinRoom n = JoinChat (Some \<lparr> jd_type = Some (js ''room''), jd_id = Some (js n) \<rparr>)"

definition generalRoom :: room_doc where
  "generalRoom = newPublicRoom quietEnv (js ''general'') None"

definition demoStart :: state where
  "demoStart =
     \<lparr> userSockets = [], connectedSockets = [],
       activeChats =
         [(js ''general'', \<lparr> chatName = Some (js ''General''), chatType = js ''room'',
                             dbId = js ''aaaaaaaaaaaaaaaaaaaaaaaa'', members = [] \<rparr>)],
       sockets = [], subscriptions = [],
       database = \<lparr> users = [alice, bob], rooms = [generalRoom], messages = [] \<rparr>,
       emitted = [] \<rparr>"

definition lobbyEvents :: "(jsstr \<times> request \<times> env) list" where
  "lobbyEvents =
     [(js ''s1'', Connection (Some alice), quietEnv), (js ''s2'', Connection (Some bob), quietEnv),
      (js ''s1'', joinRoom ''general'', quietEnv), (js ''s2'', joinRoom ''general'', quietEnv)]"

definition lobby :: state where
  "lobby =
     \<lparr> userSockets = [(aliceId, [js ''s1'']), (bobId, [js ''s2''])],
       connectedSockets =
         [(js ''s1'', \<lparr> userId = aliceId, username = js ''alice'',
                        currentChatId = Some (js ''general''), currentChatType = Some (js ''room'') \<rparr>),
          (js ''s2'', \<lparr> userId = bobId, username = js ''bob'',
                        currentChatId = Some (js ''general''), currentChatType = Some (js ''room'') \<rparr>)],
       activeChats =
         [(js ''general'', \<lparr> chatName = Some (js ''General''), chatType = js ''room'',
                             dbId = js ''aaaaaaaaaaaaaaaaaaaaaaaa'', members = [aliceId, bobId] \<rparr>)],
       sockets = [(js ''s1'', alice), (js ''s2'', bob)],
       subscriptions = [(js ''s1'', js ''general''), (js ''s2'', js ''general'')],
       database =
         \<lparr> users = [demoUser ''111111111111111111111111'' ''alice'' ''online'' 5,
                     demoUser ''222222222222222222222222'' ''bob'' ''online'' 5],
           rooms = [generalRoom], messages = [] \<rparr>,
       emitted = [] \<rparr>"

text \<open>The second state differs from the first in the log of emitted events only.\<close>

definition logOnly :: "state \<Rightarrow> state \<Rightarrow> bool" where
  "logOnly s s' \<longleftrightarrow> s'\<lparr>emitted := emitted s\<rparr> = s"

subsection \<open>Attachment and membership\<close>

text \<open>
  The chat a socket is attached to: the \<open>(currentChatId, currentChatType)\<close> of its record
  when both are truthy, which is the test of \<open>leaveCurrentChat\<close> and of the message handler.
\<close>

definition attachment :: "state \<Rightarrow> jsstr \<Rightarrow> (jsstr \<times> jsstr) option" where
  "attachment s i =
     (case map_of (connectedSockets s) i of
        None \<Rightarrow> None
      | Some sd \<Rightarrow>
          (case (currentChatId sd, currentChatType sd) of
             (Some c, Some t) \<Rightarrow> if c = [] \<or> t = [] then None else Some (c, t)
           | _ \<Rightarrow> None))"

section \<open>Basic facts about the helpers\<close>

lemma emit_fields [simp]:
  "userSockets (emit t ev s) = userSockets s"
  "connectedSockets (emit t ev s) = connectedSockets s"
  "activeChats (emit t ev s) = activeChats s"
  "sockets (emit t ev s) = sockets s"
  "subscriptions (emit t ev s) = subscriptions s"
  "database (emit t ev s) = database s"
  "emitted (emit t ev s) = emitted s @ [(t, ev)]"
  by (simp_all add: emit_def)

lemma sendError_fields [simp]:
  "userSockets (sendError i m s) = userSockets s"
  "connectedSockets (sendError i m s) = connectedSockets s"
  "activeChats (sendError i m s) = activeChats s"
  "sockets (sendError i m s) = sockets s"
  "subscriptions (sendError i m s) = subscriptions s"
  "database (sendError i m s) = database s"
  "emitted (sendError i m s) = emitted s @ [(ToSocket i, ErrorMessage m)]"
  by (simp_all add: sendError_def)

lemma foldl_emit:
  "foldl (\<lambda>s' x. emit (t x) (ev x) s') s xs = s\<lparr>emitted := emitted s @ map (\<lambda>x. (t x, ev x)) xs\<rparr>"
  by (induction xs arbitrary: s) (simp_all add: emit_def)

subsection \<open>broadcastPresenceUpdate\<close>

lemma foldl_presence:
  "foldl (\<lambda>s' v. case map_of us v of
                    None \<Rightarrow> s'
                  | Some ts \<Rightarrow> foldl (\<lambda>s'' i. emit (ToSocket i) (PresenceUpdate p) s'') s' ts) s vs
   = s\<lparr>emitted := emitted s @ presenceEmits us vs p\<rparr>"
proof (induction vs arbitrary: s)
  case Nil
  show ?case by (simp add: presenceEmits_def)
next
  case (Cons v vs)
  show ?case
    by (cases "map_of us v") (simp_all add: Cons.IH presenceEmits_def foldl_emit)
qed

lemma broadcastPresenceUpdate_eq:
  "broadcastPresenceUpdate u p s =
     s\<lparr>emitted := emitted s
          @ presenceEmits (userSockets s) (usersToNotify (activeChats s) u) (p\<lparr>p_userId := u\<rparr>)\<rparr>"
  unfolding broadcastPresenceUpdate_def by (rule foldl_presence)

lemma inner_notify_set:
  "set (foldl (\<lambda>acc' m. if m \<noteq> u then set_add m acc' else acc') acc ms)
     = set acc \<union> (set ms - {u})"
  by (induction ms arbitrary: acc) (auto simp: set_add_def)

lemma inner_notify_distinct:
  "distinct acc \<Longrightarrow> distinct (foldl (\<lambda>acc' m. if m \<noteq> u then set_add m acc' else acc') acc ms)"
  by (induction ms arbitrary: acc) (auto simp: set_add_def)

lemma outer_notify_set:
  "set (foldl (\<lambda>acc chatInfo.
              if u \<in> set (members chatInfo)
              then foldl (\<lambda>acc' m. if m \<noteq> u then set_add m acc' else acc') acc (members chatInfo)
              else acc) acc cs)
   = set acc \<union> {v. v \<noteq> u \<and> (\<exists>c \<in> set cs. u \<in> set (members c) \<and> v \<in> set (members c))}"
  by (induction cs arbitrary: acc) (auto simp: inner_notify_set)

lemma outer_notify_distinct:
  "distinct acc \<Longrightarrow> distinct (foldl (\<lambda>acc chatInfo.
              if u \<in> set (members chatInfo)
              then foldl (\<lambda>acc' m. if m \<noteq> u then set_add m acc' else acc') acc (members chatInfo)
              else acc) acc cs)"
  by (induction cs arbitrary: acc) (auto simp: inner_notify_distinct)

lemma set_usersToNotify:
  "set (usersToNotify chats u)
     = {v. v \<noteq> u \<and> (\<exists>(cid, c) \<in> set chats. u \<in> set (members c) \<and> v \<in> set (members c))}"
  unfolding usersToNotify_def outer_notify_set by force

lemma distinct_usersToNotify: "distinct (usersToNotify chats u)"
  unfolding usersToNotify_def by (rule outer_notify_distinct) simp

lemma set_presenceEmits:
  "set (presenceEmits us vs p)
     = {(ToSocket i, PresenceUpdate p) | i v. v \<in> set vs \<and> (\<exists>ts. map_of us v = Some ts \<and> i \<in> set ts)}"
  unfolding presenceEmits_def
  by (auto split: option.splits) (metis)

subsection \<open>findOrCreateDirectMessage\<close>

lemma sort_pair: "sort [a, b::jsstr] = (if a \<le> b then [a, b] else [b, a])"
  by simp

lemma findOrCreate_refines:
  "fst (findOrCreateDirectMessage e rs a b) = resolutionResult (resolverSpec e rs a b)"
  unfolding findOrCreateDirectMessage_def resolverSpec_def Let_def sort_pair
    findOrCreateBody_def saveDirect_def rethrowWrapped_def
  by (simp split: option.splits prod.splits sum.splits)

lemma findOrCreate_created:
  "resolverSpec e rs a b = Created r \<Longrightarrow>
     snd (findOrCreateDirectMessage e rs a b) = rs @ concurrent e @ [r]"
  unfolding findOrCreateDirectMessage_def resolverSpec_def Let_def sort_pair
    findOrCreateBody_def saveDirect_def rethrowWrapped_def
  by (simp split: option.splits prod.splits sum.splits if_splits)

subsection \<open>The example deployment\<close>

text \<open>
  \<open>demoStart\<close> is the state after startup, and \<open>lobby\<close> the state the server reaches from
  it when alice and bob connect and both join \<open>general\<close> (the log of emitted events set
  aside).
\<close>

lemma startup_demo: "startup demoConfig quietEnv demoDb = Some demoStart"
  by code_simp

lemma lobby_reachable: "(run demoConfig lobbyEvents demoStart)\<lparr>emitted := []\<rparr> = lobby"
  by code_simp

lemma lobby_single: "singleThroughout demoConfig lobbyEvents demoStart"
  by code_simp

lemma resolverSpec_demo:
  "resolverSpec quietEnv [] bobId aliceId = Created (newDirectRoom quietEnv [aliceId, bobId])"
  by (simp add: resolverSpec_def quietEnv_def aliceId_def bobId_def js_def findDirect_def)

section \<open>The direct-conversation resolver\<close>



section \<open>The presence broadcaster\<close>

text \<open>
  Claim C6. \<open>broadcastPresenceUpdate\<close> for identity \<open>u\<close> changes nothing but the log of
  emitted events, and the events it appends are exactly one presence update, carrying the
  status payload with \<open>u\<close>'s id, to each socket that \<open>userSockets\<close> lists for an identity
  \<open>v \<noteq> u\<close> that is in the member set of some active chat together with \<open>u\<close>; no other
  socket and no room is addressed.
\<close>

theorem C6_presence_fanout:
  "broadcastPresenceUpdate u p s = s\<lparr>emitted := emitted (broadcastPresenceUpdate u p s)\<rparr>
   \<and> take (length (emitted s)) (emitted (broadcastPresenceUpdate u p s)) = emitted s
   \<and> set (newEmits s (broadcastPresenceUpdate u p s))
       = {(ToSocket i, PresenceUpdate (p\<lparr>p_userId := u\<rparr>)) | i v.
            v \<noteq> u
            \<and> (\<exists>(cid, c) \<in> set (activeChats s). u \<in> set (members c) \<and> v \<in> set (members c))
            \<and> (\<exists>ts. map_of (userSockets s) v = Some ts \<and> i \<in> set ts)}"
  by (auto simp: broadcastPresenceUpdate_eq newEmits_def set_presenceEmits set_usersToNotify)

theorem C6_presence_fanout_witness:
  "(ToSocket (js ''s2''), PresenceUpdate ((statusPresence (js ''away'') None 7)\<lparr>p_userId := aliceId\<rparr>))
     \<in> set (newEmits lobby (broadcastPresenceUpdate aliceId (statusPresence (js ''away'') None 7) lobby))
   \<and> (ToSocket (js ''s1''), PresenceUpdate ((statusPresence (js ''away'') None 7)\<lparr>p_userId := aliceId\<rparr>))
     \<notin> set (newEmits lobby (broadcastPresenceUpdate aliceId (statusPresence (js ''away'') None 7) lobby))"
proof -
  have ne: "bobId \<noteq> aliceId" by (simp add: aliceId_def bobId_def js_def)
  have chats: "activeChats lobby =
      [(js ''general'', \<lparr> chatName = Some (js ''General''), chatType = js ''room'',
                          dbId = js ''aaaaaaaaaaaaaaaaaaaaaaaa'', members = [aliceId, bobId] \<rparr>)]"
    by (simp add: lobby_def)
  have us: "userSockets lobby = [(aliceId, [js ''s1'']), (bobId, [js ''s2''])]"
    by (simp add: lobby_def)
  have s12: "js ''s1'' \<noteq> js ''s2''" by (simp add: js_def)
  show ?thesis
    unfolding conjunct2 [OF conjunct2 [OF C6_presence_fanout]] chats us
    using ne s12 by auto
qed

subsection \<open>Fields the helpers leave alone\<close>

lemma broadcastUserListUpdate_fields [simp]:
  "userSockets (broadcastUserListUpdate e r s) = userSockets s"
  "connectedSockets (broadcastUserListUpdate e r s) = connectedSockets s"
  "activeChats (broadcastUserListUpdate e r s) = activeChats s"
  "sockets (broadcastUserListUpdate e r s) = sockets s"
  "subscriptions (broadcastUserListUpdate e r s) = subscriptions s"
  "database (broadcastUserListUpdate e r s) = database s"
  by (simp_all add: broadcastUserListUpdate_def split: option.splits)

lemma leaveCurrentChat_fields [simp]:
  "userSockets (leaveCurrentChat e i u s) = userSockets s"
  "sockets (leaveCurrentChat e i u s) = sockets s"
  "database (leaveCurrentChat e i u s) = database s"
  by (simp_all add: leaveCurrentChat_def Let_def split: option.splits)

lemma leaveCurrentChat_unattached:
  "map_of (connectedSockets s) i = Some sd \<Longrightarrow> currentChatId sd = None \<Longrightarrow>
     leaveCurrentChat e i u s = s"
  by (simp add: leaveCurrentChat_def)

lemma newEmits_sendError [simp]:
  "newEmits s (sendError i m s) = [(ToSocket i, ErrorMessage m)]"
  by (simp add: newEmits_def)

section \<open>The message router\<close>

lemma chat_message_rejected:
  assumes "(\<forall>sd. map_of (connectedSockets s) socketId = Some sd \<longrightarrow>
              currentChatId sd \<noteq> Some (c_id chat) \<or> currentChatType sd \<noteq> Some (c_type chat))
           \<or> trim text = [] \<or> length (trim text) > MAX_MESSAGE_LENGTH"
  shows "\<exists>message. chat_message e socketId user (Some \<lparr>md_text = Some text, md_chat = Some chat\<rparr>) s
           = sendError socketId message s"
  using assms
  by (auto simp: chat_message_def Let_def MAX_MESSAGE_LENGTH_def split: option.splits)

lemma chat_message_accepted:
  assumes "\<not> (\<exists>message. chat_message e socketId user msgData s = sendError socketId message s)"
  shows "\<exists>m text chat sd. msgData = Some m \<and> md_text m = Some text \<and> md_chat m = Some chat
           \<and> map_of (connectedSockets s) socketId = Some sd
           \<and> currentChatId sd = Some (c_id chat) \<and> currentChatType sd = Some (c_type chat)
           \<and> trim text \<noteq> [] \<and> length (trim text) \<le> MAX_MESSAGE_LENGTH"
  using assms
  by (auto simp: chat_message_def Let_def MAX_MESSAGE_LENGTH_def split: option.splits if_splits)

text \<open>
  Claim C4. A \<open>chat message\<close> request is rejected whenever the sending socket's current
  attachment differs from the chat the message names (which includes a socket attached to
  nothing), or the text is empty after trimming, or the trimmed text is longer than
  \<open>MAX_MESSAGE_LENGTH\<close>: the resulting state is the old state with one error event for the
  sending socket appended, so no message is persisted, no room's last activity is touched
  and nothing is broadcast. Conversely a request that is not answered that way carries a
  text and a chat reference, comes from a socket attached to exactly that chat, and has a
  non-empty trimmed text within the maximum length.
\<close>

theorem C4_send_rejected:
  "((\<forall>sd. map_of (connectedSockets s) socketId = Some sd \<longrightarrow>
              currentChatId sd \<noteq> Some (c_id chat) \<or> currentChatType sd \<noteq> Some (c_type chat))
      \<or> trim text = [] \<or> length (trim text) > MAX_MESSAGE_LENGTH
    \<longrightarrow> (\<exists>message. chat_message e socketId user (Some \<lparr>md_text = Some text, md_chat = Some chat\<rparr>) s
                       = sendError socketId message s
                   \<and> database (sendError socketId message s) = database s
                   \<and> newEmits s (sendError socketId message s)
                       = [(ToSocket socketId, ErrorMessage message)]))
   \<and> ((\<nexists>message. chat_message e socketId user msgData s = sendError socketId message s)
      \<longrightarrow> (\<exists>m text' chat' sd. msgData = Some m \<and> md_text m = Some text' \<and> md_chat m = Some chat'
           \<and> map_of (connectedSockets s) socketId = Some sd
           \<and> currentChatId sd = Some (c_id chat') \<and> currentChatType sd = Some (c_type chat')
           \<and> trim text' \<noteq> [] \<and> length (trim text') \<le> MAX_MESSAGE_LENGTH))"
proof (intro conjI impI)
  assume h: "(\<forall>sd. map_of (connectedSockets s) socketId = Some sd \<longrightarrow>
              currentChatId sd \<noteq> Some (c_id chat) \<or> currentChatType sd \<noteq> Some (c_type chat))
      \<or> trim text = [] \<or> length (trim text) > MAX_MESSAGE_LENGTH"
  from chat_message_rejected [OF h]
  show "\<exists>message. chat_message e socketId user (Some \<lparr>md_text = Some text, md_chat = Some chat\<rparr>) s
                       = sendError socketId message s
                   \<and> database (sendError socketId message s) = database s
                   \<and> newEmits s (sendError socketId message s)
                       = [(ToSocket socketId, ErrorMessage message)]"
    by auto
next
  assume "\<nexists>message. chat_message e socketId user msgData s = sendError socketId message s"
  then show "\<exists>m text' chat' sd. msgData = Some m \<and> md_text m = Some text' \<and> md_chat m = Some chat'
           \<and> map_of (connectedSockets s) socketId = Some sd
           \<and> currentChatId sd = Some (c_id chat') \<and> currentChatType sd = Some (c_type chat')
           \<and> trim text' \<noteq> [] \<and> length (trim text') \<le> MAX_MESSAGE_LENGTH"
    by (rule chat_message_accepted)
qed

theorem C4_send_rejected_witness:
  "\<exists>message. chat_message quietEnv (js ''s1'') alice
       (Some \<lparr>md_text = Some (js ''hi''), md_chat = Some \<lparr>c_type = js ''room'', c_id = js ''random''\<rparr>\<rparr>) lobby
     = sendError (js ''s1'') message lobby"
proof -
  have "\<forall>sd. map_of (connectedSockets lobby) (js ''s1'') = Some sd \<longrightarrow>
          currentChatId sd \<noteq> Some (c_id \<lparr>c_type = js ''room'', c_id = js ''random''\<rparr>)
          \<or> currentChatType sd \<noteq> Some (c_type \<lparr>c_type = js ''room'', c_id = js ''random''\<rparr>)"
    by (simp add: lobby_def js_def)
  with conjunct1 [OF C4_send_rejected [of lobby "js ''s1''" "\<lparr>c_type = js ''room'', c_id = js ''random''\<rparr>"
        "js ''hi''" quietEnv alice]]
  show ?thesis by blast
qed

section \<open>Rejected joins\<close>

lemma resolveRoom_malformed:
  assumes "length name < 3 \<or> length name > 20 \<or> \<not> roomNameRegex name"
    and "findPublicRoom d name = None"
  shows "\<exists>message. resolveRoom e user name d = (Inl message, d)"
  using assms by (auto simp: resolveRoom_def split: option.splits)

lemma join_chat_malformed:
  assumes "length name < 3 \<or> length name > 20 \<or> \<not> roomNameRegex name"
    and "findPublicRoom (database s) name = None"
    and "name \<noteq> []"
  shows "\<exists>message. join_chat cfg e socketId user
                      (Some \<lparr>jd_type = Some (js ''room''), jd_id = Some name\<rparr>) s
                    = sendError socketId message (leaveCurrentChat e socketId user s)"
proof -
  have room: "js ''room'' \<noteq> []" by (simp add: js_def)
  from resolveRoom_malformed [OF assms(1), of "database s" e user] assms(2)
  obtain message where "resolveRoom e user name (database s) = (Inl message, database s)"
    by auto
  then have "join_chat cfg e socketId user (Some \<lparr>jd_type = Some (js ''room''), jd_id = Some name\<rparr>) s
               = sendError socketId message (leaveCurrentChat e socketId user s)"
    using room assms(3) by (simp add: join_chat_def Let_def)
  then show ?thesis ..
qed




section \<open>Status updates\<close>

lemma find_updateFirst:
  "(\<And>x. P (f x) = P x) \<Longrightarrow> find P (updateFirst P f xs) = map_option f (find P xs)"
  by (induction xs) auto

lemma findUserById_updateUser:
  "(\<And>u. u_id (f u) = u_id u) \<Longrightarrow>
     findUserById (snd (updateUser i f d)) i = map_option f (findUserById d i)"
  by (simp add: updateUser_def findUserById_def find_updateFirst)

lemma offline_not_valid: "js ''offline'' \<notin> set validStatuses"
  by (simp add: validStatuses_def js_def)

lemma events_presenceEmits:
  "(t, ev) \<in> set (presenceEmits us vs p) \<Longrightarrow> ev = PresenceUpdate p"
  by (auto simp: set_presenceEmits)

text \<open>
  Claim C10, as stated, fails: a request whose status is the empty string, which is outside
  the accepted set, is rejected with an error and changes nothing else.
\<close>

theorem C10_status_coerced_counterexample:
  "set_status quietEnv (js ''s1'') alice (Some \<lparr>sd_status = Some [], sd_statusMessage = None\<rparr>) lobby
     = sendError (js ''s1'') ''Invalid status update data.'' lobby"
  by (simp add: set_status_def)

text \<open>
  Claim C10, amended. A \<open>set status\<close> request whose status is a non-empty value outside
  \<open>online\<close>, \<open>away\<close>, \<open>dnd\<close> (the value \<open>offline\<close> among them) is not rejected, provided the
  identity's record exists and the update does not throw: the status \<open>online\<close> is
  persisted with the trimmed status message cut to its first 60 code units, no error is
  sent, and every event emitted is the presence update carrying \<open>online\<close> and that message.
  A request with a missing or empty status is rejected.
\<close>

theorem C10_status_coerced:
  assumes "status \<noteq> []" and "status \<notin> set validStatuses"
    and "throws e StatusUpdate = None"
    and "findUserById (database s) (u_id user) = Some doc"
    and "s' = set_status e socketId user
                (Some \<lparr>sd_status = Some status, sd_statusMessage = statusMessage\<rparr>) s"
    and "message = take 60 (trim (case statusMessage of Some m \<Rightarrow> m | None \<Rightarrow> []))"
  shows "findUserById (database s') (u_id user)
           = Some (doc\<lparr>u_status := Some (js ''online''), u_statusMessage := message,
                       u_lastSeen := now e\<rparr>)
       \<and> length message \<le> 60
       \<and> (\<forall>(t, ev) \<in> set (newEmits s s').
             ev = PresenceUpdate ((statusPresence (js ''online'') (Some message) (now e))
                                    \<lparr>p_userId := u_id user\<rparr>))
       \<and> s' = broadcastPresenceUpdate (u_id user)
                 (statusPresence (js ''online'') (Some message) (now e))
                 (s'\<lparr>emitted := emitted s\<rparr>)
       \<and> set_status e socketId user (Some \<lparr>sd_status = None, sd_statusMessage = statusMessage\<rparr>) s
           = sendError socketId ''Invalid status update data.'' s"
proof -
  let ?f = "\<lambda>u. u\<lparr>u_status := Some (js ''online''), u_statusMessage := message, u_lastSeen := now e\<rparr>"
  obtain D where upd: "updateUser (u_id user) ?f (database s) = (Some (?f doc), D)"
    using assms(4) by (simp add: updateUser_def)
  let ?s1 = "s\<lparr>database := D,
              sockets := AList.map_entry socketId
                           (\<lambda>u. u\<lparr>u_status := Some (js ''online''), u_statusMessage := message,
                                   u_lastSeen := now e\<rparr>) (sockets s)\<rparr>"
  have s': "s' = broadcastPresenceUpdate (u_id user)
                   (statusPresence (js ''online'') (Some message) (now e)) ?s1"
    unfolding assms(5) set_status_def Let_def
    using assms(1-3) upd [unfolded assms(6)] by (simp add: assms(6))
  have db: "database s' = D"
    unfolding s' by (simp add: broadcastPresenceUpdate_eq)
  have "findUserById (snd (updateUser (u_id user) ?f (database s))) (u_id user) = Some (?f doc)"
    using assms(4) by (simp add: findUserById_updateUser)
  then have 1: "findUserById (database s') (u_id user) = Some (?f doc)"
    unfolding db upd by simp
  have 2: "length message \<le> 60" unfolding assms(6) by simp
  have 3: "\<forall>(t, ev) \<in> set (newEmits s s').
             ev = PresenceUpdate ((statusPresence (js ''online'') (Some message) (now e))
                                    \<lparr>p_userId := u_id user\<rparr>)"
    unfolding s' by (auto simp: broadcastPresenceUpdate_eq newEmits_def dest: events_presenceEmits)
  have 4: "s' = broadcastPresenceUpdate (u_id user)
                 (statusPresence (js ''online'') (Some message) (now e))
                 (s'\<lparr>emitted := emitted s\<rparr>)"
    unfolding s' by (simp add: broadcastPresenceUpdate_eq)
  have 5: "set_status e socketId user (Some \<lparr>sd_status = None, sd_statusMessage = statusMessage\<rparr>) s
           = sendError socketId ''Invalid status update data.'' s"
    by (simp add: set_status_def)
  from 1 2 3 4 5 show ?thesis by blast
qed

theorem C10_status_coerced_witness:
  "findUserById
     (database (set_status quietEnv (js ''s1'') alice
        (Some \<lparr>sd_status = Some (js ''offline''), sd_statusMessage = Some (js '' brb '')\<rparr>) lobby)) aliceId
     = Some ((demoUser ''111111111111111111111111'' ''alice'' ''online'' 5)
               \<lparr>u_status := Some (js ''online''), u_statusMessage := js ''brb'', u_lastSeen := 5\<rparr>)"
proof -
  have a: "js ''offline'' \<noteq> []" by (simp add: js_def)
  have c: "throws quietEnv StatusUpdate = None" by (simp add: quietEnv_def)
  have d: "findUserById (database lobby) (u_id alice)
             = Some (demoUser ''111111111111111111111111'' ''alice'' ''online'' 5)"
    by (simp add: lobby_def findUserById_def alice_def demoUser_def js_def)
  have m: "take 60 (trim (case Some (js '' brb '') of Some m \<Rightarrow> m | None \<Rightarrow> [])) = js ''brb''"
    by (simp add: trim_def js_def isWhiteSpace_def)
  have n: "now quietEnv = 5" by (simp add: quietEnv_def)
  have i: "u_id alice = aliceId" by (simp add: alice_def aliceId_def demoUser_def)
  from C10_status_coerced [OF a offline_not_valid c d refl refl, of "js ''s1''" "Some (js '' brb '')"]
  show ?thesis unfolding m n i by blast
qed

subsection \<open>Effects of joining and leaving on the maps\<close>

lemma getRecentMessages_fields [simp]:
  "userSockets (snd (getRecentMessages cfg e i c s)) = userSockets s"
  "connectedSockets (snd (getRecentMessages cfg e i c s)) = connectedSockets s"
  "activeChats (snd (getRecentMessages cfg e i c s)) = activeChats s"
  "sockets (snd (getRecentMessages cfg e i c s)) = sockets s"
  "subscriptions (snd (getRecentMessages cfg e i c s)) = subscriptions s"
  "database (snd (getRecentMessages cfg e i c s)) = database s"
  by (simp_all add: getRecentMessages_def split: option.splits)

lemma joinSocketToChat_fields [simp]:
  "userSockets (joinSocketToChat e i u c t n d s) = userSockets s"
  "sockets (joinSocketToChat e i u c t n d s) = sockets s"
  "database (joinSocketToChat e i u c t n d s) = database s"
  by (simp_all add: joinSocketToChat_def Let_def split: option.splits)

lemma joinSocketToChat_unconnected:
  "map_of (connectedSockets s) i = None \<Longrightarrow> joinSocketToChat e i u c t n d s = s"
  by (simp add: joinSocketToChat_def)

lemma joinSocketToChat_connectedSockets:
  "map_of (connectedSockets s) i = Some sd \<Longrightarrow>
     map_of (connectedSockets (joinSocketToChat e i u c t n d s))
       = (map_of (connectedSockets s))(i \<mapsto> sd\<lparr>currentChatId := Some c, currentChatType := Some t\<rparr>)"
  by (simp add: joinSocketToChat_def Let_def update_conv')

lemma joinSocketToChat_activeChats:
  "map_of (connectedSockets s) i = Some sd \<Longrightarrow>
     map_of (activeChats (joinSocketToChat e i u c t n d s))
       = (map_of (activeChats s))
           (c \<mapsto> (case map_of (activeChats s) c of
                     None \<Rightarrow> \<lparr>chatName = n, chatType = t, dbId = d, members = [u_id u]\<rparr>
                   | Some chat \<Rightarrow> chat\<lparr>members := set_add (u_id u) (members chat)\<rparr>))"
  by (auto simp: joinSocketToChat_def Let_def update_conv' map_of_map_entry set_add_def
           split: option.splits)

text \<open>The chat a socket is attached to, when both fields of its record are truthy.\<close>

lemma leaveCurrentChat_skip:
  "attachment s i = None \<Longrightarrow> leaveCurrentChat e i u s = s"
  by (auto simp: leaveCurrentChat_def attachment_def split: option.splits if_splits)

lemma leaveCurrentChat_connectedSockets:
  "attachment s i = Some (c, t) \<Longrightarrow> map_of (connectedSockets s) i = Some sd \<Longrightarrow>
     map_of (connectedSockets (leaveCurrentChat e i u s))
       = (map_of (connectedSockets s))(i \<mapsto> sd\<lparr>currentChatId := None, currentChatType := None\<rparr>)"
  by (auto simp: leaveCurrentChat_def attachment_def Let_def update_conv'
           split: option.splits if_splits)

lemma leaveCurrentChat_activeChats:
  "attachment s i = Some (c, t) \<Longrightarrow>
     map_of (activeChats (leaveCurrentChat e i u s))
       = (map_of (activeChats s))
           (c := map_option (\<lambda>chat. chat\<lparr>members := set_delete (u_id u) (members chat)\<rparr>)
                   (map_of (activeChats s) c))"
  by (auto simp: leaveCurrentChat_def attachment_def Let_def map_of_map_entry
           split: option.splits if_splits)

subsection \<open>Growth of the room collection\<close>

lemma sameRoom_refl [simp]: "sameRoom r r"
  by (simp add: sameRoom_def)

lemma sameRoom_trans: "sameRoom a b \<Longrightarrow> sameRoom b c \<Longrightarrow> sameRoom a c"
  by (simp add: sameRoom_def)

lemma roomsGrow_refl [simp]: "roomsGrow rs rs"
proof -
  have "rs = rs @ [] \<and> list_all2 sameRoom rs rs"
    by (simp add: list_all2_refl)
  then show ?thesis unfolding roomsGrow_def by blast
qed

lemma roomsGrow_append: "roomsGrow rs rs' \<Longrightarrow> roomsGrow rs (rs' @ xs)"
  unfolding roomsGrow_def by (metis append.assoc)

lemma roomsGrow_append_self [simp]: "roomsGrow rs (rs @ xs)"
  by (rule roomsGrow_append) simp

lemma roomsGrow_trans:
  assumes "roomsGrow a b" and "roomsGrow b c"
  shows "roomsGrow a c"
proof -
  from assms(1) obtain ys zs where b: "b = ys @ zs" and ys: "list_all2 sameRoom a ys"
    unfolding roomsGrow_def by blast
  from assms(2) obtain ys' zs' where c: "c = ys' @ zs'" and ys': "list_all2 sameRoom b ys'"
    unfolding roomsGrow_def by blast
  from ys' b have "list_all2 sameRoom ys (take (length ys) ys')"
    by (metis append_eq_conv_conj list_all2_takeI)
  with ys have "list_all2 sameRoom a (take (length ys) ys')"
    by (rule list_all2_trans [rotated]) (rule sameRoom_trans)
  moreover have "c = take (length ys) ys' @ (drop (length ys) ys' @ zs')"
    using c by simp
  ultimately show ?thesis unfolding roomsGrow_def by blast
qed

lemma list_all2_updateFirst:
  "(\<And>r. sameRoom r (f r)) \<Longrightarrow> list_all2 sameRoom rs (updateFirst P f rs)"
  by (induction rs) (simp_all add: list_all2_refl)

lemma roomsGrow_updateFirst:
  assumes "\<And>r. sameRoom r (f r)"
  shows "roomsGrow rs (updateFirst P f rs)"
proof -
  have "updateFirst P f rs = updateFirst P f rs @ []" by simp
  with list_all2_updateFirst [of f rs P, OF assms] show ?thesis
    unfolding roomsGrow_def by blast
qed

lemma find_app: "find P (xs @ ys) = (case find P xs of Some x \<Rightarrow> Some x | None \<Rightarrow> find P ys)"
  by (induction xs) auto

lemma find_list_all2:
  assumes "list_all2 sameRoom rs ys" and "\<And>r r'. sameRoom r r' \<Longrightarrow> P r' = P r"
  shows "rel_option sameRoom (find P rs) (find P ys)"
  using assms(1)
proof (induction rule: list_all2_induct)
  case Nil
  show ?case by simp
next
  case (Cons r rs y ys)
  with assms(2) [of r y] show ?case by simp
qed

lemma find_roomsGrow:
  assumes "roomsGrow rs rs'" and "\<And>r r'. sameRoom r r' \<Longrightarrow> P r' = P r"
    and "find P rs = Some r"
  shows "\<exists>r'. find P rs' = Some r' \<and> sameRoom r r'"
proof -
  from assms(1) obtain ys zs where rs': "rs' = ys @ zs" and ys: "list_all2 sameRoom rs ys"
    unfolding roomsGrow_def by blast
  have "rel_option sameRoom (find P rs) (find P ys)"
    using ys assms(2) by (rule find_list_all2)
  with assms(3) obtain r' where "find P ys = Some r'" and "sameRoom r r'"
    by (auto simp: option_rel_Some1)
  then show ?thesis unfolding rs' by (auto simp: find_app)
qed

lemma member_roomsGrow:
  assumes "roomsGrow rs rs'" and "r \<in> set rs"
  shows "\<exists>r' \<in> set rs'. sameRoom r r'"
proof -
  from assms(1) obtain ys zs where rs': "rs' = ys @ zs" and ys: "list_all2 sameRoom rs ys"
    unfolding roomsGrow_def by blast
  from assms(2) obtain n where n: "n < length rs" "rs ! n = r"
    by (auto simp: in_set_conv_nth)
  with ys have "sameRoom r (ys ! n)" and "n < length ys"
    by (auto simp: list_all2_conv_all_nth)
  then obtain r' where "r' \<in> set ys" and "sameRoom r r'"
    by (meson nth_mem)
  then show ?thesis unfolding rs' by auto
qed

lemma dmParticipant_iff:
  "dmParticipant d c u \<longleftrightarrow>
     (\<exists>r \<in> set (rooms d). r_type r = js ''direct'' \<and> r_id r = c \<and> u \<in> set (r_participants r))"
  by (simp add: dmParticipant_def list_ex_iff)

lemma dmParticipant_grow:
  assumes "roomsGrow (rooms d) (rooms d')" and "dmParticipant d c u"
  shows "dmParticipant d' c u"
proof -
  from assms(2) obtain r where r: "r \<in> set (rooms d)" "r_type r = js ''direct''" "r_id r = c"
      "u \<in> set (r_participants r)"
    unfolding dmParticipant_iff by blast
  from member_roomsGrow [OF assms(1) r(1)] obtain r' where "r' \<in> set (rooms d')" "sameRoom r r'"
    by blast
  with r show ?thesis unfolding dmParticipant_iff sameRoom_def by auto
qed

subsection \<open>Handlers and the log\<close>

lemma logOnly_refl [simp]: "logOnly s s"
  by (simp add: logOnly_def)

lemma logOnly_trans:
  assumes "logOnly a b" and "logOnly b c"
  shows "logOnly a c"
proof -
  from assms have ab: "b\<lparr>emitted := emitted a\<rparr> = a" and bc: "c\<lparr>emitted := emitted b\<rparr> = b"
    by (simp_all add: logOnly_def)
  have "c\<lparr>emitted := emitted a\<rparr> = (c\<lparr>emitted := emitted b\<rparr>)\<lparr>emitted := emitted a\<rparr>"
    by simp
  also have "\<dots> = a" unfolding bc by (rule ab)
  finally show ?thesis by (simp add: logOnly_def)
qed

lemma logOnly_fields:
  assumes "logOnly s s'"
  shows "userSockets s' = userSockets s" "connectedSockets s' = connectedSockets s"
    "activeChats s' = activeChats s" "sockets s' = sockets s"
    "subscriptions s' = subscriptions s" "database s' = database s"
proof -
  from assms have eq: "s'\<lparr>emitted := emitted s\<rparr> = s" by (simp add: logOnly_def)
  show "userSockets s' = userSockets s" using arg_cong [OF eq, of userSockets] by simp
  show "connectedSockets s' = connectedSockets s" using arg_cong [OF eq, of connectedSockets] by simp
  show "activeChats s' = activeChats s" using arg_cong [OF eq, of activeChats] by simp
  show "sockets s' = sockets s" using arg_cong [OF eq, of sockets] by simp
  show "subscriptions s' = subscriptions s" using arg_cong [OF eq, of subscriptions] by simp
  show "database s' = database s" using arg_cong [OF eq, of database] by simp
qed

lemma logOnly_emit [simp]: "logOnly s (emit t ev s)"
  by (simp add: logOnly_def emit_def)

lemma logOnly_sendError [simp]: "logOnly s (sendError i m s)"
  by (simp add: sendError_def)

lemma logOnly_update [simp]: "logOnly s (s\<lparr>emitted := l\<rparr>)"
  by (simp add: logOnly_def)

lemma logOnly_foldl_emit [simp]: "logOnly s (foldl (\<lambda>s' x. emit (t x) (ev x) s') s xs)"
  by (simp add: foldl_emit)

lemma logOnly_broadcastPresenceUpdate [simp]: "logOnly s (broadcastPresenceUpdate u p s)"
  by (simp add: broadcastPresenceUpdate_eq)

lemma logOnly_broadcastUserListUpdate [simp]: "logOnly s (broadcastUserListUpdate e r s)"
  by (simp add: broadcastUserListUpdate_def split: option.splits)

lemma logOnly_getRecentMessages [simp]: "logOnly s (snd (getRecentMessages cfg e i c s))"
  by (simp add: getRecentMessages_def split: option.splits)

lemma logOnly_dmListNotify [simp]: "logOnly s (dmListNotify e u v c t s p)"
  by (simp add: dmListNotify_def Let_def split: option.splits)

lemma logOnly_foldl:
  "(\<And>s p. logOnly s (f s p)) \<Longrightarrow> logOnly s (foldl f s ps)"
proof (induction ps arbitrary: s)
  case Nil
  show ?case by simp
next
  case (Cons p ps)
  from Cons.prems have "logOnly s (f s p)" .
  moreover from Cons.IH [OF Cons.prems] have "logOnly (f s p) (foldl f (f s p) ps)" .
  ultimately have "logOnly s (foldl f (f s p) ps)" by (rule logOnly_trans)
  then show ?case by simp
qed

lemma logOnly_typingRelay [simp]: "logOnly s (typingRelay mk i c s)"
  by (simp add: typingRelay_def split: option.splits)

lemma logOnly_sendInitialData [simp]: "logOnly s (sendInitialData e i u s)"
  by (simp add: sendInitialData_def)

subsection \<open>Handlers and the room collection\<close>

lemma findOrCreate_rooms:
  "roomsGrow rs (snd (findOrCreateDirectMessage e rs a b))"
  unfolding findOrCreateDirectMessage_def findOrCreateBody_def saveDirect_def Let_def
  by (auto split: option.splits prod.splits simp: roomsGrow_append)

lemma findDirect_Some:
  "findDirect ps rs = Some r \<Longrightarrow>
     r \<in> set rs \<and> r_type r = js ''direct'' \<and> set ps \<subseteq> set (r_participants r)"
  by (auto simp: findDirect_def find_Some_iff list_all_iff)

lemma findOrCreate_room:
  assumes "findOrCreateDirectMessage e rs a b = (Inr (r, created), rs')"
  shows "r \<in> set rs' \<and> r_type r = js ''direct'' \<and> a \<in> set (r_participants r)
         \<and> b \<in> set (r_participants r)"
proof -
  have ne: "a \<noteq> b" using assms by (auto simp: findOrCreateDirectMessage_def)
  define ps where "ps = sort [a, b]"
  have ps: "set ps = {a, b}" unfolding ps_def by auto
  obtain x rs2 where x: "findOrCreateBody e ps rs = (x, rs2)"
    by (cases "findOrCreateBody e ps rs")
  with assms ne have "rethrowWrapped x = Inr (r, created)" and "rs2 = rs'"
    by (simp_all add: findOrCreateDirectMessage_def Let_def ps_def)
  then have "x = Inr (r, created)"
    by (cases x) (simp_all add: rethrowWrapped_def)
  with x \<open>rs2 = rs'\<close> have "findOrCreateBody e ps rs = (Inr (r, created), rs')"
    by simp
  then have "r \<in> set rs' \<and> r_type r = js ''direct'' \<and> set ps \<subseteq> set (r_participants r)"
    by (auto simp: findOrCreateBody_def saveDirect_def newDirectRoom_def
             split: option.splits if_splits dest!: findDirect_Some)
  then show ?thesis unfolding ps by simp
qed

lemma findOrCreate_grow:
  "findOrCreateDirectMessage e rs a b = (x, rs') \<Longrightarrow> roomsGrow rs rs'"
  using findOrCreate_rooms [of rs e a b] by simp

lemma resolveRoom_effect:
  "resolveRoom e u n d = (x, d') \<Longrightarrow>
     roomsGrow (rooms d) (rooms d') \<and> users d' = users d \<and> messages d' = messages d"
  by (auto simp: resolveRoom_def split: option.splits if_splits)

lemma completeJoin_fields [simp]:
  "userSockets (completeJoin cfg e i u t c s) = userSockets s"
  "sockets (completeJoin cfg e i u t c s) = sockets s"
  "database (completeJoin cfg e i u t c s) = database s"
  by (simp_all add: completeJoin_def Let_def split_def)

lemma openDm_fields [simp]:
  "sockets (openDm cfg e i u tid tu r c s) = sockets s"
  "database (openDm cfg e i u tid tu r c s) = database s"
  by (simp_all add: openDm_def Let_def split_def foldl_emit split: option.splits)

lemma join_chat_database:
  "roomsGrow (rooms (database s)) (rooms (database (join_chat cfg e i u data s)))
   \<and> users (database (join_chat cfg e i u data s)) = users (database s)
   \<and> messages (database (join_chat cfg e i u data s)) = messages (database s)"
  by (auto simp: join_chat_def Let_def split: option.splits prod.splits sum.splits
           dest!: resolveRoom_effect)

lemma initiate_dm_database:
  "roomsGrow (rooms (database s)) (rooms (database (initiate_dm cfg e i u target s)))
   \<and> users (database (initiate_dm cfg e i u target s)) = users (database s)
   \<and> messages (database (initiate_dm cfg e i u target s)) = messages (database s)"
  by (auto simp: initiate_dm_def split: option.splits prod.splits sum.splits
           dest!: findOrCreate_grow)

lemma deliverMessage_fields [simp]:
  "userSockets (deliverMessage e i u c t m s) = userSockets s"
  "connectedSockets (deliverMessage e i u c t m s) = connectedSockets s"
  "activeChats (deliverMessage e i u c t m s) = activeChats s"
  "sockets (deliverMessage e i u c t m s) = sockets s"
  "subscriptions (deliverMessage e i u c t m s) = subscriptions s"
  by (simp_all add: deliverMessage_def Let_def split_def logOnly_fields [OF logOnly_foldl]
        split: option.splits)

lemma deliverMessage_rooms:
  "roomsGrow (rooms (database s)) (rooms (database (deliverMessage e i u c t m s)))"
  by (simp add: deliverMessage_def Let_def split_def updateRoom_def logOnly_fields [OF logOnly_foldl]
        roomsGrow_updateFirst sameRoom_def split: option.splits)

subsection \<open>Attachment, membership and the invariants\<close>

lemma attachedTo_iff:
  "attachedTo s c u \<longleftrightarrow>
     (\<exists>i sd. map_of (connectedSockets s) i = Some sd \<and> userId sd = u \<and> currentChatId sd = Some c)"
proof
  assume "attachedTo s c u"
  then show "\<exists>i sd. map_of (connectedSockets s) i = Some sd \<and> userId sd = u \<and> currentChatId sd = Some c"
    by (auto simp: attachedTo_def list_ex_iff split: option.splits)
next
  assume "\<exists>i sd. map_of (connectedSockets s) i = Some sd \<and> userId sd = u \<and> currentChatId sd = Some c"
  then obtain i sd where sd: "map_of (connectedSockets s) i = Some sd" "userId sd = u"
      "currentChatId sd = Some c"
    by blast
  then have "i \<in> set (map fst (connectedSockets s))"
    by (force dest: map_of_SomeD)
  with sd show "attachedTo s c u"
    unfolding attachedTo_def list_ex_iff by force
qed

lemma attachment_Some:
  "attachment s i = Some (c, t) \<longleftrightarrow>
     (\<exists>sd. map_of (connectedSockets s) i = Some sd \<and> currentChatId sd = Some c
           \<and> currentChatType sd = Some t \<and> c \<noteq> [] \<and> t \<noteq> [])"
  by (auto simp: attachment_def split: option.splits)

lemma attachment_None:
  "attachment s i = None \<Longrightarrow> attachmentShape s \<Longrightarrow> detached s i"
  unfolding detached_def attachmentShape_def attachment_def
  by (fastforce split: option.splits if_splits)

lemma wellFormed_grow:
  assumes "wellFormed s"
    and "connectedSockets s' = connectedSockets s" and "activeChats s' = activeChats s"
    and "sockets s' = sockets s" and "roomsGrow (rooms (database s)) (rooms (database s'))"
  shows "wellFormed s'"
proof -
  have dm: "\<And>c u. dmParticipant (database s) c u \<Longrightarrow> dmParticipant (database s') c u"
    using assms(5) by (rule dmParticipant_grow)
  have at: "\<And>c u. attachedTo s' c u = attachedTo s c u"
    by (simp add: attachedTo_iff assms(2))
  have mem: "\<And>c. membersOf s' c = membersOf s c"
    by (simp add: membersOf_def assms(3))
  from assms(1) have "ownerAgrees s'"
    by (simp add: wellFormed_def ownerAgrees_def assms(2,4))
  moreover from assms(1) have "attachmentShape s'"
    unfolding wellFormed_def attachmentShape_def assms(2) using dm by blast
  moreover from assms(1) have "membersAccounted s'"
    unfolding wellFormed_def membersAccounted_def at mem using dm by blast
  ultimately show ?thesis by (simp add: wellFormed_def)
qed

lemma wellFormed_logOnly:
  assumes "logOnly s s'" and "wellFormed s"
  shows "wellFormed s'"
proof -
  have "roomsGrow (rooms (database s)) (rooms (database s'))"
    unfolding logOnly_fields(6) [OF assms(1)] by (rule roomsGrow_refl)
  with assms(2) logOnly_fields(2-4) [OF assms(1)] show ?thesis
    by (rule wellFormed_grow)
qed

lemma detached_cong:
  "connectedSockets s' = connectedSockets s \<Longrightarrow> detached s' i = detached s i"
  by (simp add: detached_def)

lemma membersOf_leave:
  "attachment s i = Some (c, t) \<Longrightarrow>
     membersOf (leaveCurrentChat e i u s) c'
       = (if c' = c then set_delete (u_id u) (membersOf s c) else membersOf s c')"
  by (simp add: membersOf_def leaveCurrentChat_activeChats set_delete_def split: option.splits)

lemma wellFormed_leave:
  assumes wf: "wellFormed s" and user: "map_of (sockets s) i = Some user"
  shows "wellFormed (leaveCurrentChat e i user s) \<and> detached (leaveCurrentChat e i user s) i"
proof (cases "attachment s i")
  case None
  with wf show ?thesis
    by (simp add: leaveCurrentChat_skip attachment_None wellFormed_def)
next
  case (Some ct)
  obtain c t where ct: "ct = (c, t)" by (cases ct)
  with Some have att: "attachment s i = Some (c, t)" by simp
  then obtain sd where sd: "map_of (connectedSockets s) i = Some sd" "currentChatId sd = Some c"
    unfolding attachment_Some by blast
  let ?s' = "leaveCurrentChat e i user s"
  have cs: "map_of (connectedSockets ?s')
              = (map_of (connectedSockets s))(i \<mapsto> sd\<lparr>currentChatId := None, currentChatType := None\<rparr>)"
    using att sd(1) by (rule leaveCurrentChat_connectedSockets)
  from wf sd(1) user have owner: "u_id user = userId sd"
    unfolding wellFormed_def ownerAgrees_def by fastforce
  have 1: "ownerAgrees ?s'"
    using wf user owner unfolding wellFormed_def ownerAgrees_def cs by auto
  have 2: "attachmentShape ?s'"
    using wf unfolding wellFormed_def attachmentShape_def cs by auto
  have keep: "attachedTo ?s' c' u" if "attachedTo s c' u" and "c' \<noteq> c \<or> u \<noteq> u_id user" for c' u
  proof -
    from that(1) obtain j sdj where j: "map_of (connectedSockets s) j = Some sdj" "userId sdj = u"
        "currentChatId sdj = Some c'"
      unfolding attachedTo_iff by blast
    with that(2) sd owner have "j \<noteq> i" by auto
    with j show ?thesis unfolding attachedTo_iff cs by auto
  qed
  have 3: "membersAccounted ?s'"
    unfolding membersAccounted_def
  proof (intro allI impI)
    fix c' u
    assume u: "u \<in> set (membersOf ?s' c')"
    then have old: "u \<in> set (membersOf s c')" and diff: "c' \<noteq> c \<or> u \<noteq> u_id user"
      by (auto simp: membersOf_leave [OF att] set_delete_def split: if_splits)
    with wf have "attachedTo s c' u \<or> dmParticipant (database s) c' u"
      by (simp add: wellFormed_def membersAccounted_def)
    with keep diff show "attachedTo ?s' c' u \<or> dmParticipant (database ?s') c' u"
      by auto
  qed
  have 4: "detached ?s' i"
    unfolding detached_def cs by simp
  from 1 2 3 4 show ?thesis by (simp add: wellFormed_def)
qed

lemma membersOf_join:
  "map_of (connectedSockets s) i = Some sd \<Longrightarrow>
     set (membersOf (joinSocketToChat e i u c t n d s) c')
       = (if c' = c then insert (u_id u) (set (membersOf s c)) else set (membersOf s c'))"
  by (auto simp: membersOf_def joinSocketToChat_activeChats set_add_def split: option.splits)

lemma wellFormed_join:
  assumes wf: "wellFormed s" and user: "map_of (sockets s) i = Some user"
    and det: "detached s i" and t: "t \<noteq> []"
    and c: "c = [] \<longrightarrow> dmParticipant (database s) [] (u_id user)"
  shows "wellFormed (joinSocketToChat e i user c t n d s)"
proof (cases "map_of (connectedSockets s) i")
  case None
  with wf show ?thesis by (simp add: joinSocketToChat_unconnected)
next
  case (Some sd)
  let ?s' = "joinSocketToChat e i user c t n d s"
  have cs: "map_of (connectedSockets ?s')
              = (map_of (connectedSockets s))(i \<mapsto> sd\<lparr>currentChatId := Some c, currentChatType := Some t\<rparr>)"
    using Some by (rule joinSocketToChat_connectedSockets)
  from wf Some user have owner: "u_id user = userId sd"
    unfolding wellFormed_def ownerAgrees_def by fastforce
  have 1: "ownerAgrees ?s'"
    using wf user owner unfolding wellFormed_def ownerAgrees_def cs by auto
  have 2: "attachmentShape ?s'"
    using wf t c owner unfolding wellFormed_def attachmentShape_def cs by auto
  have self: "attachedTo ?s' c (u_id user)"
    unfolding attachedTo_iff cs using owner by auto
  have keep: "attachedTo ?s' c' u \<or> dmParticipant (database s) c' u" if "attachedTo s c' u" for c' u
  proof -
    from that obtain j sdj where j: "map_of (connectedSockets s) j = Some sdj" "userId sdj = u"
        "currentChatId sdj = Some c'"
      unfolding attachedTo_iff by blast
    show ?thesis
    proof (cases "j = i")
      case True
      with j Some det have "c' = []" and "sdj = sd" by (auto simp: detached_def)
      with wf j Some show ?thesis
        unfolding wellFormed_def attachmentShape_def by blast
    next
      case False
      with j show ?thesis unfolding attachedTo_iff cs by auto
    qed
  qed
  have 3: "membersAccounted ?s'"
    unfolding membersAccounted_def
  proof (intro allI impI)
    fix c' u
    assume "u \<in> set (membersOf ?s' c')"
    then consider "c' = c" "u = u_id user" | "u \<in> set (membersOf s c')"
      by (auto simp: membersOf_join [OF Some] split: if_splits)
    then show "attachedTo ?s' c' u \<or> dmParticipant (database ?s') c' u"
    proof cases
      case 1
      with self show ?thesis by simp
    next
      case 2
      with wf have "attachedTo s c' u \<or> dmParticipant (database s) c' u"
        by (simp add: wellFormed_def membersAccounted_def)
      with keep show ?thesis by auto
    qed
  qed
  from 1 2 3 show ?thesis by (simp add: wellFormed_def)
qed

subsection \<open>The shape of each handler's result\<close>

lemma findPublicRoom_Some:
  "findPublicRoom d n = Some r \<Longrightarrow> r \<in> set (rooms d) \<and> r_type r = js ''public'' \<and> r_name r = Some n"
  by (auto simp: findPublicRoom_def find_Some_iff)

lemma findRoomById_Some:
  "findRoomById d n = Some r \<Longrightarrow> r \<in> set (rooms d) \<and> r_id r = n"
  by (auto simp: findRoomById_def find_Some_iff)

lemma resolveRoom_chat:
  assumes "resolveRoom e u n d = (Inr chat, d')"
  shows "chatIdForClient chat = n \<and> chatDbId chat \<in> r_id ` set (rooms d')"
  using assms
  by (auto simp: resolveRoom_def roomResolved_def newPublicRoom_def
           split: option.splits if_splits dest!: findPublicRoom_Some)

lemma resolveDirect_chat:
  assumes "resolveDirect e u n d = Inr chat"
  shows "chatIdForClient chat = n \<and> chatDbId chat \<in> r_id ` set (rooms d) \<and> isValidObjectId n"
  using assms
  by (auto simp: resolveDirect_def dmResolved_def
           split: option.splits if_splits list.splits dest!: findRoomById_Some)

lemma js_room_direct [simp]:
  "js ''room'' \<noteq> []" "js ''direct'' \<noteq> []" "js ''room'' \<noteq> js ''direct''"
  "js ''direct'' \<noteq> js ''room''" "js ''public'' \<noteq> js ''direct''" "js ''direct'' \<noteq> js ''public''"
  by (simp_all add: js_def)

lemma isValidObjectId_nonempty: "isValidObjectId v \<Longrightarrow> v \<noteq> []"
  by (auto simp: isValidObjectId_def)

lemma database_idem [simp]: "s\<lparr>database := database s\<rparr> = s"
  by simp

lemma join_chat_shape:
  "(\<exists>m. join_chat cfg e i u data s = sendError i m s)
   \<or> (\<exists>m d'. join_chat cfg e i u data s
                = sendError i m ((leaveCurrentChat e i u s)\<lparr>database := d'\<rparr>)
             \<and> roomsGrow (rooms (database s)) (rooms d')
             \<and> users d' = users (database s) \<and> messages d' = messages (database s))
   \<or> (\<exists>t chat d'. join_chat cfg e i u data s
                     = completeJoin cfg e i u t chat ((leaveCurrentChat e i u s)\<lparr>database := d'\<rparr>)
             \<and> roomsGrow (rooms (database s)) (rooms d')
             \<and> users d' = users (database s) \<and> messages d' = messages (database s)
             \<and> t \<noteq> [] \<and> chatIdForClient chat \<noteq> []
             \<and> chatDbId chat \<in> r_id ` set (rooms d'))"
proof (cases data)
  case None
  then have "join_chat cfg e i u data s = sendError i ''Invalid join request data.'' s"
    by (simp add: join_chat_def)
  then show ?thesis by blast
next
  case (Some d)
  show ?thesis
  proof (cases "jd_type d")
    case None
    with Some have "join_chat cfg e i u data s = sendError i ''Invalid join request data.'' s"
      by (simp add: join_chat_def)
    then show ?thesis by blast
  next
    case ty: (Some requestedType)
    show ?thesis
    proof (cases "jd_id d")
      case None
      with Some ty have "join_chat cfg e i u data s = sendError i ''Invalid join request data.'' s"
        by (simp add: join_chat_def)
      then show ?thesis by blast
    next
      case id: (Some requestedId)
      let ?s1 = "leaveCurrentChat e i u s"
      have db1: "database ?s1 = database s" by simp
      have idem: "?s1\<lparr>database := database s\<rparr> = ?s1"
        unfolding db1 [symmetric] by (rule database_idem)
      have same: "roomsGrow (rooms (database s)) (rooms (database s))"
        "users (database s) = users (database s)" "messages (database s) = messages (database s)"
        by simp_all
      show ?thesis
      proof (cases "requestedType = [] \<or> requestedId = []")
        case True
        with Some ty id have
          "join_chat cfg e i u data s = sendError i ''Invalid join request data.'' s"
          by (auto simp: join_chat_def)
        then show ?thesis by blast
      next
        case False
        then have ne: "requestedType \<noteq> []" "requestedId \<noteq> []" by auto
        consider (room) "requestedType = js ''room''"
          | (direct) "requestedType \<noteq> js ''room''" "requestedType = js ''direct''"
          | (other) "requestedType \<noteq> js ''room''" "requestedType \<noteq> js ''direct''"
          by blast
        then show ?thesis
        proof cases
          case room
          obtain x d' where r: "resolveRoom e u requestedId (database ?s1) = (x, d')"
            by (cases "resolveRoom e u requestedId (database ?s1)")
          from resolveRoom_effect [OF r] have grow: "roomsGrow (rooms (database s)) (rooms d')"
            "users d' = users (database s)" "messages d' = messages (database s)"
            by (simp_all add: db1)
          show ?thesis
          proof (cases x)
            case (Inl m)
            with Some ty id ne room r have
              "join_chat cfg e i u data s = sendError i m (?s1\<lparr>database := d'\<rparr>)"
              by (simp add: join_chat_def Let_def)
            with grow show ?thesis by blast
          next
            case (Inr chat)
            with Some ty id ne room r have
              "join_chat cfg e i u data s = completeJoin cfg e i u requestedType chat (?s1\<lparr>database := d'\<rparr>)"
              by (simp add: join_chat_def Let_def)
            moreover from resolveRoom_chat [OF r [unfolded Inr]] ne
            have "chatIdForClient chat \<noteq> []" "chatDbId chat \<in> r_id ` set (rooms d')" by auto
            ultimately show ?thesis using grow ne by blast
          qed
        next
          case direct
          show ?thesis
          proof (cases "resolveDirect e u requestedId (database ?s1)")
            case (Inl m)
            with Some ty id ne direct have
              "join_chat cfg e i u data s = sendError i m (?s1\<lparr>database := database s\<rparr>)"
              by (simp add: join_chat_def Let_def idem)
            with same show ?thesis by blast
          next
            case (Inr chat)
            with Some ty id ne direct have
              "join_chat cfg e i u data s
                 = completeJoin cfg e i u requestedType chat (?s1\<lparr>database := database s\<rparr>)"
              by (simp add: join_chat_def Let_def idem)
            moreover from resolveDirect_chat [OF Inr] ne
            have "chatIdForClient chat \<noteq> []" "chatDbId chat \<in> r_id ` set (rooms (database s))"
              by auto
            ultimately show ?thesis using same ne by blast
          qed
        next
          case other
          from Some ty id ne other have
            "join_chat cfg e i u data s
               = sendError i ''Invalid chat type specified.'' (?s1\<lparr>database := database s\<rparr>)"
            by (simp add: join_chat_def Let_def idem)
          with same show ?thesis by blast
        qed
      qed
    qed
  qed
qed

lemma initiate_dm_shape:
  "(\<exists>m d'. initiate_dm cfg e i u target s = sendError i m (s\<lparr>database := d'\<rparr>)
           \<and> roomsGrow (rooms (database s)) (rooms d')
           \<and> users d' = users (database s) \<and> messages d' = messages (database s))
   \<or> (\<exists>tid tu dmRoom created d'.
         initiate_dm cfg e i u target s = openDm cfg e i u tid tu dmRoom created (s\<lparr>database := d'\<rparr>)
         \<and> roomsGrow (rooms (database s)) (rooms d')
         \<and> users d' = users (database s) \<and> messages d' = messages (database s)
         \<and> dmRoom \<in> set (rooms d') \<and> r_type dmRoom = js ''direct''
         \<and> u_id u \<in> set (r_participants dmRoom) \<and> tid \<in> set (r_participants dmRoom))"
proof -
  have same: "roomsGrow (rooms (database s)) (rooms (database s))
              \<and> users (database s) = users (database s)
              \<and> messages (database s) = messages (database s)"
    by simp
  have plain: ?thesis if "initiate_dm cfg e i u target s = sendError i m s" for m
  proof -
    from that have "initiate_dm cfg e i u target s = sendError i m (s\<lparr>database := database s\<rparr>)"
      by simp
    with same show ?thesis by blast
  qed
  show ?thesis
  proof (cases target)
    case None
    then have "initiate_dm cfg e i u target s = sendError i ''Invalid target user for DM.'' s"
      by (simp add: initiate_dm_def)
    then show ?thesis by (rule plain)
  next
    case (Some tid)
    show ?thesis
    proof (cases "tid = [] \<or> tid = u_id u \<or> \<not> isValidObjectId tid \<or> throws e TargetUserFind \<noteq> None
                  \<or> findUserById (database s) tid = None")
      case True
      then have "\<exists>m. initiate_dm cfg e i u target s = sendError i m s"
        unfolding Some by (auto simp: initiate_dm_def split: option.splits)
      then show ?thesis using plain by blast
    next
      case False
      then obtain tu where go: "tid \<noteq> []" "tid \<noteq> u_id u" "isValidObjectId tid"
          "throws e TargetUserFind = None" "findUserById (database s) tid = Some tu"
        by auto
      obtain x rs where f: "findOrCreateDirectMessage e (rooms (database s)) (u_id u) tid = (x, rs)"
        by (cases "findOrCreateDirectMessage e (rooms (database s)) (u_id u) tid")
      let ?d' = "(database s)\<lparr>rooms := rs\<rparr>"
      from findOrCreate_grow [OF f] have grow: "roomsGrow (rooms (database s)) (rooms ?d')"
        "users ?d' = users (database s)" "messages ?d' = messages (database s)"
        by simp_all
      show ?thesis
      proof (cases x)
        case (Inl err)
        with go f Some have
          "initiate_dm cfg e i u target s = sendError i (startDmFailure err) (s\<lparr>database := ?d'\<rparr>)"
          by (simp add: initiate_dm_def)
        with grow show ?thesis by blast
      next
        case (Inr rc)
        obtain dmRoom created where rc: "rc = (dmRoom, created)" by (cases rc)
        with go f Some Inr have
          "initiate_dm cfg e i u target s = openDm cfg e i u tid tu dmRoom created (s\<lparr>database := ?d'\<rparr>)"
          by (simp add: initiate_dm_def)
        moreover from findOrCreate_room [OF f [unfolded Inr rc]]
        have "dmRoom \<in> set (rooms ?d')" "r_type dmRoom = js ''direct''"
          "u_id u \<in> set (r_participants dmRoom)" "tid \<in> set (r_participants dmRoom)"
          by simp_all
        ultimately show ?thesis using grow by blast
      qed
    qed
  qed
qed

lemma chat_message_shape:
  "(\<exists>m. chat_message e i u msgData s = sendError i m s)
   \<or> (\<exists>c t m. chat_message e i u msgData s = deliverMessage e i u c t m s)"
  by (auto simp: chat_message_def Let_def split: option.splits)

subsection \<open>Every handler keeps the invariants\<close>

lemma detached_database [simp]: "detached (s\<lparr>database := d\<rparr>) i = detached s i"
  by (simp add: detached_def)

lemma wellFormed_database:
  "wellFormed s \<Longrightarrow> roomsGrow (rooms (database s)) (rooms d') \<Longrightarrow> wellFormed (s\<lparr>database := d'\<rparr>)"
  by (rule wellFormed_grow) simp_all

lemma completeJoin_logOnly:
  "logOnly (joinSocketToChat e i u (chatIdForClient chat) t (rc_chatName chat) (chatDbId chat) s)
     (completeJoin cfg e i u t chat s)"
  unfolding completeJoin_def Let_def split_def
  by (rule logOnly_trans [OF logOnly_getRecentMessages logOnly_emit])

lemma wellFormed_completeJoin:
  assumes "wellFormed s" and "map_of (sockets s) i = Some user" and "detached s i"
    and "t \<noteq> []" and "chatIdForClient chat \<noteq> []"
  shows "wellFormed (completeJoin cfg e i user t chat s)"
proof -
  have "wellFormed (joinSocketToChat e i user (chatIdForClient chat) t (rc_chatName chat)
                      (chatDbId chat) s)"
    using assms by (intro wellFormed_join) simp_all
  with completeJoin_logOnly show ?thesis by (rule wellFormed_logOnly)
qed

lemma wellFormed_sendError [simp]: "wellFormed (sendError i m s) = wellFormed s"
  by (simp add: wellFormed_def ownerAgrees_def attachmentShape_def membersAccounted_def
        attachedTo_def membersOf_def)

lemma wellFormed_join_chat:
  assumes wf: "wellFormed s" and user: "map_of (sockets s) i = Some user"
  shows "wellFormed (join_chat cfg e i user data s)"
proof -
  let ?s1 = "leaveCurrentChat e i user s"
  from wellFormed_leave [OF wf user] have s1: "wellFormed ?s1" "detached ?s1 i" by simp_all
  have grown: "wellFormed (?s1\<lparr>database := d'\<rparr>)" if "roomsGrow (rooms (database s)) (rooms d')" for d'
    using s1(1) that by (intro wellFormed_database) simp_all
  from join_chat_shape [of cfg e i user data s] show ?thesis
  proof (elim disjE exE conjE)
    fix m assume "join_chat cfg e i user data s = sendError i m s"
    with wf show ?thesis by simp
  next
    fix m d'
    assume "join_chat cfg e i user data s = sendError i m (?s1\<lparr>database := d'\<rparr>)"
      and "roomsGrow (rooms (database s)) (rooms d')"
    with grown show ?thesis by simp
  next
    fix t chat d'
    assume eq: "join_chat cfg e i user data s = completeJoin cfg e i user t chat (?s1\<lparr>database := d'\<rparr>)"
      and g: "roomsGrow (rooms (database s)) (rooms d')"
      and t: "t \<noteq> []" and c: "chatIdForClient chat \<noteq> []"
    have "wellFormed (completeJoin cfg e i user t chat (?s1\<lparr>database := d'\<rparr>))"
      using grown [OF g] user s1(2) t c by (intro wellFormed_completeJoin) simp_all
    with eq show ?thesis by simp
  qed
qed

lemma openDm_steps:
  "\<exists>chats. logOnly
      (joinSocketToChat e i u (r_id dmRoom) (js ''direct'')
         (Some (v_username (formatUserForClient tu))) (r_id dmRoom)
         (leaveCurrentChat e i u (s\<lparr>activeChats := chats\<rparr>)))
      (openDm cfg e i u tid tu dmRoom created s)
    \<and> (\<forall>c. set (case map_of chats c of None \<Rightarrow> [] | Some chat \<Rightarrow> members chat)
             = (if c = r_id dmRoom then {u_id u, tid} \<union> set (membersOf s c)
                else set (membersOf s c)))
    \<and> (\<forall>c m. chatMeta s c = Some m \<longrightarrow>
             map_option (\<lambda>chat. (chatName chat, chatType chat, dbId chat)) (map_of chats c) = Some m)"
proof -
  let ?chats = "if map_of (activeChats s) (r_id dmRoom) = None
                then AList.update (r_id dmRoom)
                       \<lparr> chatName = Some (v_username (formatUserForClient tu)), chatType = js ''direct'',
                         dbId = r_id dmRoom, members = [u_id u, tid] \<rparr> (activeChats s)
                else AList.map_entry (r_id dmRoom)
                       (\<lambda>chat. chat\<lparr>members := set_add tid (set_add (u_id u) (members chat))\<rparr>)
                       (activeChats s)"
  let ?s3 = "joinSocketToChat e i u (r_id dmRoom) (js ''direct'')
               (Some (v_username (formatUserForClient tu))) (r_id dmRoom)
               (leaveCurrentChat e i u (s\<lparr>activeChats := ?chats\<rparr>))"
  let ?s5 = "emit (ToSocket i)
               (JoinedChat
                  \<lparr> cv_type = js ''direct'', cv_id = r_id dmRoom,
                    cv_name = Some (v_username (formatUserForClient tu)),
                    cv_avatarUrl = Some (v_avatarUrl (formatUserForClient tu)) \<rparr>
                  [] (fst (getRecentMessages cfg e i (r_id dmRoom) ?s3)) created)
               (snd (getRecentMessages cfg e i (r_id dmRoom) ?s3))"
  have a: "logOnly ?s3 ?s5"
    by (rule logOnly_trans [OF logOnly_getRecentMessages logOnly_emit])
  have b: "logOnly ?s5 (openDm cfg e i u tid tu dmRoom created s)"
    unfolding openDm_def Let_def split_def
    by (simp split: option.splits)
  have 1: "logOnly ?s3 (openDm cfg e i u tid tu dmRoom created s)"
    using a b by (rule logOnly_trans)
  have 2: "\<forall>c. set (case map_of ?chats c of None \<Rightarrow> [] | Some chat \<Rightarrow> members chat)
             = (if c = r_id dmRoom then {u_id u, tid} \<union> set (membersOf s c)
                else set (membersOf s c))"
    by (auto simp: membersOf_def update_conv' map_of_map_entry set_add_def split: option.splits)
  have 3: "\<forall>c m. chatMeta s c = Some m \<longrightarrow>
             map_option (\<lambda>chat. (chatName chat, chatType chat, dbId chat)) (map_of ?chats c) = Some m"
    by (auto simp: chatMeta_def update_conv' map_of_map_entry split: option.splits)
  from 1 2 3 show ?thesis by blast
qed

lemma wellFormed_openDm:
  assumes wf: "wellFormed s" and user: "map_of (sockets s) i = Some user"
    and room: "dmRoom \<in> set (rooms (database s))" "r_type dmRoom = js ''direct''"
      "u_id user \<in> set (r_participants dmRoom)" "tid \<in> set (r_participants dmRoom)"
  shows "wellFormed (openDm cfg e i user tid tu dmRoom created s)"
proof -
  from openDm_steps [of e i user dmRoom tu s cfg tid created]
  obtain chats where
    lo: "logOnly
      (joinSocketToChat e i user (r_id dmRoom) (js ''direct'')
         (Some (v_username (formatUserForClient tu))) (r_id dmRoom)
         (leaveCurrentChat e i user (s\<lparr>activeChats := chats\<rparr>)))
      (openDm cfg e i user tid tu dmRoom created s)"
    and mem: "\<And>c. set (case map_of chats c of None \<Rightarrow> [] | Some chat \<Rightarrow> members chat)
             = (if c = r_id dmRoom then {u_id user, tid} \<union> set (membersOf s c)
                else set (membersOf s c))"
    by blast
  let ?s1 = "s\<lparr>activeChats := chats\<rparr>"
  have dm: "dmParticipant (database s) (r_id dmRoom) (u_id user)"
    "dmParticipant (database s) (r_id dmRoom) tid"
    using room unfolding dmParticipant_iff by auto
  have at: "\<And>c u. attachedTo ?s1 c u = attachedTo s c u"
    by (simp add: attachedTo_iff)
  have "membersAccounted ?s1"
    unfolding membersAccounted_def
  proof (intro allI impI)
    fix c u
    assume "u \<in> set (membersOf ?s1 c)"
    then have "u \<in> set (membersOf s c) \<or> (c = r_id dmRoom \<and> (u = u_id user \<or> u = tid))"
      using mem [of c] by (auto simp: membersOf_def split: if_splits)
    with wf dm show "attachedTo ?s1 c u \<or> dmParticipant (database ?s1) c u"
      unfolding at by (auto simp: wellFormed_def membersAccounted_def)
  qed
  moreover have "ownerAgrees ?s1 = ownerAgrees s" "attachmentShape ?s1 = attachmentShape s"
    by (simp_all add: ownerAgrees_def attachmentShape_def)
  ultimately have wf1: "wellFormed ?s1"
    using wf by (simp add: wellFormed_def)
  have user1: "map_of (sockets ?s1) i = Some user" using user by simp
  let ?s2 = "leaveCurrentChat e i user ?s1"
  from wellFormed_leave [OF wf1 user1] have s2: "wellFormed ?s2" "detached ?s2 i" by simp_all
  have "wellFormed (joinSocketToChat e i user (r_id dmRoom) (js ''direct'')
         (Some (v_username (formatUserForClient tu))) (r_id dmRoom) ?s2)"
    using s2 user dm(1) by (intro wellFormed_join) auto
  with lo show ?thesis by (rule wellFormed_logOnly)
qed

lemma wellFormed_initiate_dm:
  assumes wf: "wellFormed s" and user: "map_of (sockets s) i = Some user"
  shows "wellFormed (initiate_dm cfg e i user target s)"
proof -
  from initiate_dm_shape [of cfg e i user target s] show ?thesis
  proof (elim disjE exE conjE)
    fix m d'
    assume "initiate_dm cfg e i user target s = sendError i m (s\<lparr>database := d'\<rparr>)"
      and "roomsGrow (rooms (database s)) (rooms d')"
    with wf show ?thesis by (simp add: wellFormed_database)
  next
    fix tid tu dmRoom created d'
    assume eq: "initiate_dm cfg e i user target s
                  = openDm cfg e i user tid tu dmRoom created (s\<lparr>database := d'\<rparr>)"
      and g: "roomsGrow (rooms (database s)) (rooms d')"
      and r: "dmRoom \<in> set (rooms d')" "r_type dmRoom = js ''direct''"
        "u_id user \<in> set (r_participants dmRoom)" "tid \<in> set (r_participants dmRoom)"
    have "wellFormed (openDm cfg e i user tid tu dmRoom created (s\<lparr>database := d'\<rparr>))"
      using wellFormed_database [OF wf g] user r by (intro wellFormed_openDm) simp_all
    with eq show ?thesis by simp
  qed
qed

lemma wellFormed_chat_message:
  assumes wf: "wellFormed s"
  shows "wellFormed (chat_message e i u msgData s)"
proof -
  have "wellFormed (deliverMessage e i u c t m s)" for c t m
    using wf by (rule wellFormed_grow) (simp_all add: deliverMessage_rooms)
  with wf chat_message_shape [of e i u msgData s] show ?thesis by auto
qed

lemma updateUser_rooms:
  "updateUser i f d = (x, d') \<Longrightarrow> rooms d' = rooms d \<and> messages d' = messages d"
  by (auto simp: updateUser_def)

lemma wellFormed_sockets:
  assumes "wellFormed s"
    and "connectedSockets s' = connectedSockets s" and "activeChats s' = activeChats s"
    and "\<And>j u. map_of (sockets s) j = Some u \<Longrightarrow>
           \<exists>u'. map_of (sockets s') j = Some u' \<and> u_id u' = u_id u"
    and "rooms (database s') = rooms (database s)"
  shows "wellFormed s'"
proof -
  have dm: "\<And>c u. dmParticipant (database s') c u = dmParticipant (database s) c u"
    by (simp add: dmParticipant_def assms(5))
  have at: "\<And>c u. attachedTo s' c u = attachedTo s c u"
    by (simp add: attachedTo_iff assms(2))
  have mem: "\<And>c. membersOf s' c = membersOf s c"
    by (simp add: membersOf_def assms(3))
  from assms(1) have "ownerAgrees s'"
    unfolding wellFormed_def ownerAgrees_def assms(2) using assms(4) by fastforce
  moreover from assms(1) have "attachmentShape s'"
    unfolding wellFormed_def attachmentShape_def assms(2) dm by blast
  moreover from assms(1) have "membersAccounted s'"
    unfolding wellFormed_def membersAccounted_def at mem dm by blast
  ultimately show ?thesis by (simp add: wellFormed_def)
qed

lemma wellFormed_set_status:
  assumes wf: "wellFormed s"
  shows "wellFormed (set_status e i u data s)"
proof -
  have inner: "wellFormed (s\<lparr>database := d', sockets := AList.map_entry i
                  (\<lambda>u. u\<lparr>u_status := a, u_statusMessage := b, u_lastSeen := c\<rparr>) (sockets s)\<rparr>)"
    if "rooms d' = rooms (database s)" for d' a b c
    using wf by (rule wellFormed_sockets) (auto simp: that map_of_map_entry)
  show ?thesis
    unfolding set_status_def Let_def
    using wf
    by (auto split: option.splits prod.splits dest!: updateUser_rooms
             intro!: wellFormed_logOnly [OF logOnly_broadcastPresenceUpdate] inner)
qed

lemma disconnect_shape:
  "\<exists>us d'. logOnly
       ((leaveCurrentChat e i u
           (s\<lparr>subscriptions := filter (\<lambda>(sid, r). sid \<noteq> i) (subscriptions s)\<rparr>))
          \<lparr>userSockets := us,
            connectedSockets :=
              AList.delete i (connectedSockets
                (leaveCurrentChat e i u
                   (s\<lparr>subscriptions := filter (\<lambda>(sid, r). sid \<noteq> i) (subscriptions s)\<rparr>))),
            sockets := AList.delete i (sockets s), database := d'\<rparr>)
       (disconnect e i u s)
     \<and> rooms d' = rooms (database s) \<and> messages d' = messages (database s)"
proof -
  let ?s1 = "leaveCurrentChat e i u
               (s\<lparr>subscriptions := filter (\<lambda>(sid, r). sid \<noteq> i) (subscriptions s)\<rparr>)"
  obtain was us where wu:
    "(case map_of (userSockets ?s1) (u_id u) of
        None \<Rightarrow> (False, userSockets ?s1)
      | Some userSocketSet \<Rightarrow>
          if set_delete i userSocketSet = []
          then (True, AList.delete (u_id u) (userSockets ?s1))
          else (False, AList.map_entry (u_id u) (set_delete i) (userSockets ?s1))) = (was, us)"
    by (metis surj_pair)
  let ?s2 = "?s1\<lparr>userSockets := us, connectedSockets := AList.delete i (connectedSockets ?s1),
                  sockets := AList.delete i (sockets ?s1)\<rparr>"
  have db2: "database ?s2 = database s" by simp
  have idem: "?s2\<lparr>database := database s\<rparr> = ?s2"
    unfolding db2 [symmetric] by (rule database_idem)
  have form: "?s2\<lparr>database := d'\<rparr>
                = ?s1\<lparr>userSockets := us, connectedSockets := AList.delete i (connectedSockets ?s1),
                       sockets := AList.delete i (sockets s), database := d'\<rparr>" for d'
    by simp
  have plain: "logOnly (?s2\<lparr>database := database s\<rparr>) ?s2"
    unfolding idem by simp
  have "\<exists>d'. logOnly (?s2\<lparr>database := d'\<rparr>) (disconnect e i u s)
           \<and> rooms d' = rooms (database s) \<and> messages d' = messages (database s)"
  proof (cases "was \<and> throws e OfflineUpdate = None")
    case False
    with wu have "disconnect e i u s = ?s2"
      by (auto simp: disconnect_def Let_def split: option.splits)
    with plain show ?thesis by auto
  next
    case True
    obtain x d' where up: "updateUser (u_id u)
                        (\<lambda>u. u\<lparr>u_status := Some (js ''offline''), u_lastSeen := now e\<rparr>)
                        (database ?s2) = (x, d')"
      by (metis surj_pair)
    from updateUser_rooms [OF up] have d': "rooms d' = rooms (database s)"
      "messages d' = messages (database s)" by simp_all
    show ?thesis
    proof (cases x)
      case None
      with True wu up have "disconnect e i u s = ?s2"
        by (simp add: disconnect_def Let_def)
      with plain show ?thesis by auto
    next
      case (Some updatedUser)
      with True wu up have "disconnect e i u s
          = broadcastPresenceUpdate (u_id u)
              (statusPresence (js ''offline'') None (u_lastSeen updatedUser)) (?s2\<lparr>database := d'\<rparr>)"
        by (simp add: disconnect_def Let_def)
      then have "logOnly (?s2\<lparr>database := d'\<rparr>) (disconnect e i u s)" by simp
      with d' show ?thesis by blast
    qed
  qed
  then show ?thesis unfolding form by blast
qed

lemma wellFormed_disconnect:
  assumes wf: "wellFormed s" and user: "map_of (sockets s) i = Some user"
  shows "wellFormed (disconnect e i user s)"
proof -
  let ?s0 = "s\<lparr>subscriptions := filter (\<lambda>(sid, r). sid \<noteq> i) (subscriptions s)\<rparr>"
  let ?s1 = "leaveCurrentChat e i user ?s0"
  from wf have wf0: "wellFormed ?s0" by (rule wellFormed_grow) simp_all
  have user0: "map_of (sockets ?s0) i = Some user" using user by simp
  from wellFormed_leave [OF wf0 user0] have s1: "wellFormed ?s1" "detached ?s1 i" by simp_all
  from disconnect_shape [where e = e and i = i and u = user and s = s] obtain us d' where
    lo: "logOnly (?s1\<lparr>userSockets := us,
                      connectedSockets := AList.delete i (connectedSockets ?s1),
                      sockets := AList.delete i (sockets s), database := d'\<rparr>) (disconnect e i user s)"
    and d': "rooms d' = rooms (database s)"
    by blast
  let ?s2 = "?s1\<lparr>userSockets := us, connectedSockets := AList.delete i (connectedSockets ?s1),
                  sockets := AList.delete i (sockets s), database := d'\<rparr>"
  have cs: "map_of (connectedSockets ?s2) = (map_of (connectedSockets ?s1))(i := None)"
    by (simp add: delete_conv')
  have so: "map_of (sockets ?s2) = (map_of (sockets ?s1))(i := None)"
    by (simp add: delete_conv')
  have dm: "\<And>c u. dmParticipant (database ?s2) c u = dmParticipant (database ?s1) c u"
    by (simp add: dmParticipant_def d')
  have mem: "\<And>c. membersOf ?s2 c = membersOf ?s1 c"
    by (simp add: membersOf_def)
  have 1: "ownerAgrees ?s2"
    using s1(1) unfolding wellFormed_def ownerAgrees_def cs so by auto
  have 2: "attachmentShape ?s2"
    using s1(1) unfolding wellFormed_def attachmentShape_def cs dm by auto
  have keep: "attachedTo ?s2 c u \<or> dmParticipant (database ?s1) c u" if "attachedTo ?s1 c u" for c u
  proof -
    from that obtain j sdj where j: "map_of (connectedSockets ?s1) j = Some sdj" "userId sdj = u"
        "currentChatId sdj = Some c"
      unfolding attachedTo_iff by blast
    show ?thesis
    proof (cases "j = i")
      case True
      with j s1(2) have "c = []" by (auto simp: detached_def)
      with s1(1) j show ?thesis
        unfolding wellFormed_def attachmentShape_def by blast
    next
      case False
      with j show ?thesis unfolding attachedTo_iff cs by auto
    qed
  qed
  have 3: "membersAccounted ?s2"
    unfolding membersAccounted_def mem dm
    using s1(1) keep by (auto simp: wellFormed_def membersAccounted_def)
  from 1 2 3 have "wellFormed ?s2" by (simp add: wellFormed_def)
  with lo show ?thesis by (rule wellFormed_logOnly)
qed

lemma handleUserConnect_shape:
  "\<exists>d'. logOnly (s\<lparr>database := d'\<rparr>) (handleUserConnect e i u s)
        \<and> rooms d' = rooms (database s) \<and> messages d' = messages (database s)"
proof -
  have plain: ?thesis if "logOnly s (handleUserConnect e i u s)"
  proof -
    from that have "logOnly (s\<lparr>database := database s\<rparr>) (handleUserConnect e i u s)" by simp
    then show ?thesis by blast
  qed
  show ?thesis
  proof (cases "map_option length (map_of (userSockets s) (u_id u)) = Some 1
                \<and> throws e OnlineUpdate = None")
    case False
    then have "logOnly s (handleUserConnect e i u s)"
      by (auto simp: handleUserConnect_def split: option.splits)
    then show ?thesis by (rule plain)
  next
    case True
    obtain x d' where up: "updateUser (u_id u)
                     (\<lambda>u. u\<lparr>u_status := Some (js ''online''), u_lastSeen := now e\<rparr>) (database s) = (x, d')"
      by (metis surj_pair)
    from updateUser_rooms [OF up] have d': "rooms d' = rooms (database s)"
      "messages d' = messages (database s)" by simp_all
    show ?thesis
    proof (cases x)
      case None
      with True up have "handleUserConnect e i u s = s"
        by (simp add: handleUserConnect_def)
      then show ?thesis by (intro plain) simp
    next
      case (Some updatedUser)
      with True up have "handleUserConnect e i u s
          = sendInitialData e i u
              (broadcastPresenceUpdate (u_id u)
                 (statusPresence (js ''online'') None (u_lastSeen updatedUser)) (s\<lparr>database := d'\<rparr>))"
        by (simp add: handleUserConnect_def)
      then have "logOnly (s\<lparr>database := d'\<rparr>) (handleUserConnect e i u s)"
        using logOnly_trans [OF logOnly_broadcastPresenceUpdate logOnly_sendInitialData] by simp
      with d' show ?thesis by blast
    qed
  qed
qed

lemma wellFormed_connection:
  assumes wf: "wellFormed s" and fresh: "map_of (sockets s) i = None"
  shows "wellFormed (connection e i socketUser s)"
proof (cases socketUser)
  case None
  with wf show ?thesis by (simp add: connection_def)
next
  case (Some user)
  show ?thesis
  proof (cases "u_id user = []")
    case True
    with Some wf show ?thesis by (simp add: connection_def)
  next
    case False
    define us where "us = AList.map_entry (u_id user) (set_add i)
                 (if map_of (userSockets s) (u_id user) = None
                  then AList.update (u_id user) [] (userSockets s) else userSockets s)"
    let ?sd = "\<lparr> userId = u_id user, username = u_username user,
                  currentChatId = None, currentChatType = None \<rparr>"
    let ?s1 = "s\<lparr>userSockets := us,
                  connectedSockets := AList.update i ?sd (connectedSockets s),
                  sockets := AList.update i user (sockets s)\<rparr>"
    have eq: "connection e i socketUser s = handleUserConnect e i user ?s1"
      using Some False by (simp add: connection_def Let_def us_def)
    have nocs: "map_of (connectedSockets s) i = None"
    proof (rule ccontr)
      assume "map_of (connectedSockets s) i \<noteq> None"
      then obtain sd where "map_of (connectedSockets s) i = Some sd" by blast
      with wf obtain u where "map_of (sockets s) i = Some u"
        unfolding wellFormed_def ownerAgrees_def by blast
      with fresh show False by simp
    qed
    have cs: "map_of (connectedSockets ?s1) = (map_of (connectedSockets s))(i \<mapsto> ?sd)"
      by (simp add: update_conv')
    have so: "map_of (sockets ?s1) = (map_of (sockets s))(i \<mapsto> user)"
      by (simp add: update_conv')
    have dm: "\<And>c u. dmParticipant (database ?s1) c u = dmParticipant (database s) c u"
      by (simp add: dmParticipant_def)
    have mem: "\<And>c. membersOf ?s1 c = membersOf s c"
      by (simp add: membersOf_def)
    have at: "attachedTo ?s1 c u" if "attachedTo s c u" for c u
    proof -
      from that obtain j sdj where j: "map_of (connectedSockets s) j = Some sdj" "userId sdj = u"
          "currentChatId sdj = Some c"
        unfolding attachedTo_iff by blast
      with nocs have "j \<noteq> i" by auto
      with j show ?thesis unfolding attachedTo_iff cs by auto
    qed
    have 1: "ownerAgrees ?s1"
      using wf unfolding wellFormed_def ownerAgrees_def cs so by auto
    have 2: "attachmentShape ?s1"
      using wf unfolding wellFormed_def attachmentShape_def cs dm by auto
    have 3: "membersAccounted ?s1"
      unfolding membersAccounted_def mem dm
      using wf at by (auto simp: wellFormed_def membersAccounted_def)
    from 1 2 3 have wf1: "wellFormed ?s1" by (simp add: wellFormed_def)
    from handleUserConnect_shape [where s = ?s1 and e = e and i = i and u = user] obtain d' where
      lo: "logOnly (?s1\<lparr>database := d'\<rparr>) (handleUserConnect e i user ?s1)"
      and d': "rooms d' = rooms (database ?s1)"
      by blast
    have "wellFormed (?s1\<lparr>database := d'\<rparr>)"
      using wf1 by (rule wellFormed_database) (simp add: d')
    with lo have "wellFormed (handleUserConnect e i user ?s1)" by (rule wellFormed_logOnly)
    with eq show ?thesis by simp
  qed
qed

lemma wellFormed_step:
  assumes wf: "wellFormed s"
  shows "wellFormed (step cfg ev s)"
proof -
  obtain i req e where ev: "ev = (i, req, e)" by (cases ev)
  show ?thesis
  proof (cases "map_of (sockets s) i")
    case None
    with wf ev show ?thesis
      by (cases req) (simp_all add: step_def wellFormed_connection)
  next
    case (Some user)
    have "wellFormed (handle cfg e i user req s)"
    proof (cases req)
      case (Connection x)
      with wf show ?thesis by simp
    next
      case (JoinChat x)
      with wf Some show ?thesis by (simp add: wellFormed_join_chat)
    next
      case (InitiateDm x)
      with wf Some show ?thesis by (simp add: wellFormed_initiate_dm)
    next
      case (SendMessage x)
      with wf show ?thesis by (simp add: wellFormed_chat_message)
    next
      case (TypingReq x)
      with wf show ?thesis
        by (simp add: typing_def wellFormed_logOnly [OF logOnly_typingRelay])
    next
      case (StopTypingReq x)
      with wf show ?thesis
        by (simp add: stop_typing_def wellFormed_logOnly [OF logOnly_typingRelay])
    next
      case (SetStatus x)
      with wf show ?thesis by (simp add: wellFormed_set_status)
    next
      case Disconnect
      with wf Some show ?thesis by (simp add: wellFormed_disconnect)
    qed
    with Some ev show ?thesis by (simp add: step_def)
  qed
qed

lemma wellFormed_run: "wellFormed s \<Longrightarrow> wellFormed (run cfg evs s)"
  by (induction evs arbitrary: s) (simp_all add: wellFormed_step)

lemma wellFormed_startup:
  assumes "startup cfg e d = Some s0"
  shows "wellFormed s0"
proof -
  have "connectedSockets s0 = [] \<and> (\<forall>c. membersOf s0 c = [])"
    using assms
    by (auto simp: startup_def ensureDefaultRoom_def emptyState_def Let_def membersOf_def
          update_conv' split: option.splits if_splits)
  then show ?thesis
    by (simp add: wellFormed_def ownerAgrees_def attachmentShape_def membersAccounted_def)
qed

subsection \<open>Attached identities are members while no identity has two connections\<close>

lemma single_iff:
  "single s \<longleftrightarrow>
     (\<forall>i j sdi sdj. map_of (connectedSockets s) i = Some sdi \<and> map_of (connectedSockets s) j = Some sdj
        \<and> userId sdi = userId sdj \<longrightarrow> i = j)"
proof
  assume s: "single s"
  show "\<forall>i j sdi sdj. map_of (connectedSockets s) i = Some sdi \<and> map_of (connectedSockets s) j = Some sdj
        \<and> userId sdi = userId sdj \<longrightarrow> i = j"
  proof (intro allI impI)
    fix i j sdi sdj
    assume h: "map_of (connectedSockets s) i = Some sdi \<and> map_of (connectedSockets s) j = Some sdj
        \<and> userId sdi = userId sdj"
    then have "i \<in> set (map fst (connectedSockets s))" "j \<in> set (map fst (connectedSockets s))"
      by (force dest: map_of_SomeD)+
    with s h show "i = j" unfolding single_def list_all_iff by fastforce
  qed
next
  assume r: "\<forall>i j sdi sdj. map_of (connectedSockets s) i = Some sdi \<and> map_of (connectedSockets s) j = Some sdj
        \<and> userId sdi = userId sdj \<longrightarrow> i = j"
  show "single s"
    unfolding single_def list_all_iff
  proof (intro ballI impI)
    fix i j
    assume i: "i \<in> set (map fst (connectedSockets s))" and j: "j \<in> set (map fst (connectedSockets s))"
      and eq: "map_option userId (map_of (connectedSockets s) i)
               = map_option userId (map_of (connectedSockets s) j)"
    from i obtain sdi where sdi: "map_of (connectedSockets s) i = Some sdi"
      by (cases "map_of (connectedSockets s) i") (auto simp: map_of_eq_None_iff)
    from j obtain sdj where sdj: "map_of (connectedSockets s) j = Some sdj"
      by (cases "map_of (connectedSockets s) j") (auto simp: map_of_eq_None_iff)
    from eq sdi sdj have "userId sdi = userId sdj" by simp
    with r sdi sdj show "i = j" by blast
  qed
qed

lemma attachedAreMembers_cong:
  "connectedSockets s' = connectedSockets s \<Longrightarrow> activeChats s' = activeChats s \<Longrightarrow>
     attachedAreMembers s' = attachedAreMembers s"
  by (simp add: attachedAreMembers_def attachedTo_iff membersOf_def)

lemma attachedAreMembers_logOnly:
  "logOnly s s' \<Longrightarrow> attachedAreMembers s \<Longrightarrow> attachedAreMembers s'"
  using attachedAreMembers_cong [of s' s] by (simp add: logOnly_fields)

lemma attachedAreMembers_leave:
  assumes am: "attachedAreMembers s" and one: "single s" and wf: "wellFormed s"
    and user: "map_of (sockets s) i = Some user"
  shows "attachedAreMembers (leaveCurrentChat e i user s)"
proof (cases "attachment s i")
  case None
  with am show ?thesis by (simp add: leaveCurrentChat_skip)
next
  case (Some ct)
  obtain c t where "ct = (c, t)" by (cases ct)
  with Some have att: "attachment s i = Some (c, t)" by simp
  then obtain sd where sd: "map_of (connectedSockets s) i = Some sd"
    unfolding attachment_Some by blast
  let ?s' = "leaveCurrentChat e i user s"
  have cs: "map_of (connectedSockets ?s')
              = (map_of (connectedSockets s))(i \<mapsto> sd\<lparr>currentChatId := None, currentChatType := None\<rparr>)"
    using att sd by (rule leaveCurrentChat_connectedSockets)
  from wf sd user have owner: "u_id user = userId sd"
    unfolding wellFormed_def ownerAgrees_def by fastforce
  show ?thesis
    unfolding attachedAreMembers_def
  proof (intro allI impI)
    fix c' u
    assume "attachedTo ?s' c' u"
    then obtain j sdj where j: "map_of (connectedSockets ?s') j = Some sdj" "userId sdj = u"
        "currentChatId sdj = Some c'"
      unfolding attachedTo_iff by blast
    then have ji: "j \<noteq> i" and j': "map_of (connectedSockets s) j = Some sdj"
      unfolding cs by (auto split: if_splits)
    with j have "attachedTo s c' u" unfolding attachedTo_iff by blast
    with am have old: "u \<in> set (membersOf s c')" by (simp add: attachedAreMembers_def)
    from one sd j' ji have "userId sdj \<noteq> userId sd" unfolding single_iff by blast
    with j owner have "u \<noteq> u_id user" by simp
    with old show "u \<in> set (membersOf ?s' c')"
      by (auto simp: membersOf_leave [OF att] set_delete_def)
  qed
qed

lemma attachedAreMembers_join:
  assumes am: "attachedAreMembers s" and wf: "wellFormed s"
    and user: "map_of (sockets s) i = Some user"
  shows "attachedAreMembers (joinSocketToChat e i user c t n d s)"
proof (cases "map_of (connectedSockets s) i")
  case None
  with am show ?thesis by (simp add: joinSocketToChat_unconnected)
next
  case (Some sd)
  let ?s' = "joinSocketToChat e i user c t n d s"
  have cs: "map_of (connectedSockets ?s')
              = (map_of (connectedSockets s))(i \<mapsto> sd\<lparr>currentChatId := Some c, currentChatType := Some t\<rparr>)"
    using Some by (rule joinSocketToChat_connectedSockets)
  from wf Some user have owner: "u_id user = userId sd"
    unfolding wellFormed_def ownerAgrees_def by fastforce
  show ?thesis
    unfolding attachedAreMembers_def
  proof (intro allI impI)
    fix c' u
    assume "attachedTo ?s' c' u"
    then obtain j sdj where j: "map_of (connectedSockets ?s') j = Some sdj" "userId sdj = u"
        "currentChatId sdj = Some c'"
      unfolding attachedTo_iff by blast
    show "u \<in> set (membersOf ?s' c')"
    proof (cases "j = i")
      case True
      with j owner have "c' = c" "u = u_id user" unfolding cs by auto
      then show ?thesis by (simp add: membersOf_join [OF Some])
    next
      case False
      with j have "attachedTo s c' u" unfolding attachedTo_iff cs by auto
      with am have "u \<in> set (membersOf s c')" by (simp add: attachedAreMembers_def)
      then show ?thesis by (auto simp: membersOf_join [OF Some])
    qed
  qed
qed

lemma single_cong: "connectedSockets s' = connectedSockets s \<Longrightarrow> single s' = single s"
  by (simp add: single_def)

lemma attachedAreMembers_join_chat:
  assumes am: "attachedAreMembers s" and one: "single s" and wf: "wellFormed s"
    and user: "map_of (sockets s) i = Some user"
  shows "attachedAreMembers (join_chat cfg e i user data s)"
proof -
  let ?s1 = "leaveCurrentChat e i user s"
  have am1: "attachedAreMembers (?s1\<lparr>database := d'\<rparr>)" for d'
    using attachedAreMembers_leave [OF am one wf user, of e]
      attachedAreMembers_cong [of "?s1\<lparr>database := d'\<rparr>" ?s1] by simp
  from wellFormed_leave [OF wf user] have wf1: "wellFormed ?s1" by simp
  from join_chat_shape [of cfg e i user data s] show ?thesis
  proof (elim disjE exE conjE)
    fix m assume "join_chat cfg e i user data s = sendError i m s"
    with am show ?thesis by (simp add: attachedAreMembers_logOnly [OF logOnly_sendError])
  next
    fix m d'
    assume "join_chat cfg e i user data s = sendError i m (?s1\<lparr>database := d'\<rparr>)"
    with am1 [of d'] show ?thesis by (simp add: attachedAreMembers_logOnly [OF logOnly_sendError])
  next
    fix t chat d'
    assume eq: "join_chat cfg e i user data s = completeJoin cfg e i user t chat (?s1\<lparr>database := d'\<rparr>)"
      and g: "roomsGrow (rooms (database s)) (rooms d')"
    have wfd: "wellFormed (?s1\<lparr>database := d'\<rparr>)"
      using wf1 g by (intro wellFormed_database) simp_all
    have "attachedAreMembers (joinSocketToChat e i user (chatIdForClient chat) t (rc_chatName chat)
                      (chatDbId chat) (?s1\<lparr>database := d'\<rparr>))"
      using am1 [of d'] wfd user by (intro attachedAreMembers_join) simp_all
    with completeJoin_logOnly have "attachedAreMembers (completeJoin cfg e i user t chat (?s1\<lparr>database := d'\<rparr>))"
      by (rule attachedAreMembers_logOnly)
    with eq show ?thesis by simp
  qed
qed

lemma attachedAreMembers_openDm:
  assumes am: "attachedAreMembers s" and one: "single s" and wf: "wellFormed s"
    and user: "map_of (sockets s) i = Some user"
    and room: "dmRoom \<in> set (rooms (database s))" "r_type dmRoom = js ''direct''"
      "u_id user \<in> set (r_participants dmRoom)" "tid \<in> set (r_participants dmRoom)"
  shows "attachedAreMembers (openDm cfg e i user tid tu dmRoom created s)"
proof -
  from openDm_steps [where e = e and i = i and u = user and dmRoom = dmRoom and tu = tu and s = s
      and cfg = cfg and tid = tid and created = created]
  obtain chats where
    lo: "logOnly
      (joinSocketToChat e i user (r_id dmRoom) (js ''direct'')
         (Some (v_username (formatUserForClient tu))) (r_id dmRoom)
         (leaveCurrentChat e i user (s\<lparr>activeChats := chats\<rparr>)))
      (openDm cfg e i user tid tu dmRoom created s)"
    and mem: "\<And>c. set (case map_of chats c of None \<Rightarrow> [] | Some chat \<Rightarrow> members chat)
             = (if c = r_id dmRoom then {u_id user, tid} \<union> set (membersOf s c)
                else set (membersOf s c))"
    by blast
  let ?s1 = "s\<lparr>activeChats := chats\<rparr>"
  have sub: "set (membersOf s c) \<subseteq> set (membersOf ?s1 c)" for c
    using mem [of c] by (auto simp: membersOf_def)
  have at: "\<And>c u. attachedTo ?s1 c u = attachedTo s c u"
    by (simp add: attachedTo_iff)
  have am1: "attachedAreMembers ?s1"
    using am sub unfolding attachedAreMembers_def at by blast
  have one1: "single ?s1" using one by (simp add: single_def)
  have dm: "dmParticipant (database s) (r_id dmRoom) (u_id user)"
    "dmParticipant (database s) (r_id dmRoom) tid"
    using room unfolding dmParticipant_iff by auto
  have "membersAccounted ?s1"
    unfolding membersAccounted_def
  proof (intro allI impI)
    fix c u
    assume "u \<in> set (membersOf ?s1 c)"
    then have "u \<in> set (membersOf s c) \<or> (c = r_id dmRoom \<and> (u = u_id user \<or> u = tid))"
      using mem [of c] by (auto simp: membersOf_def split: if_splits)
    with wf dm show "attachedTo ?s1 c u \<or> dmParticipant (database ?s1) c u"
      unfolding at by (auto simp: wellFormed_def membersAccounted_def)
  qed
  moreover have "ownerAgrees ?s1 = ownerAgrees s" "attachmentShape ?s1 = attachmentShape s"
    by (simp_all add: ownerAgrees_def attachmentShape_def)
  ultimately have wf1: "wellFormed ?s1"
    using wf by (simp add: wellFormed_def)
  have user1: "map_of (sockets ?s1) i = Some user" using user by simp
  let ?s2 = "leaveCurrentChat e i user ?s1"
  from wellFormed_leave [OF wf1 user1] have wf2: "wellFormed ?s2" by simp
  have am2: "attachedAreMembers ?s2"
    using am1 one1 wf1 user1 by (rule attachedAreMembers_leave)
  have "attachedAreMembers (joinSocketToChat e i user (r_id dmRoom) (js ''direct'')
         (Some (v_username (formatUserForClient tu))) (r_id dmRoom) ?s2)"
    using am2 wf2 user by (intro attachedAreMembers_join) simp_all
  with lo show ?thesis by (rule attachedAreMembers_logOnly)
qed

lemma attachedAreMembers_database [simp]:
  "attachedAreMembers (s\<lparr>database := d\<rparr>) = attachedAreMembers s"
  by (rule attachedAreMembers_cong) simp_all

lemma single_database [simp]: "single (s\<lparr>database := d\<rparr>) = single s"
  by (simp add: single_def)

lemma attachedAreMembers_initiate_dm:
  assumes am: "attachedAreMembers s" and one: "single s" and wf: "wellFormed s"
    and user: "map_of (sockets s) i = Some user"
  shows "attachedAreMembers (initiate_dm cfg e i user target s)"
proof -
  from initiate_dm_shape [of cfg e i user target s] show ?thesis
  proof (elim disjE exE conjE)
    fix m d'
    assume "initiate_dm cfg e i user target s = sendError i m (s\<lparr>database := d'\<rparr>)"
    with am show ?thesis by (simp add: attachedAreMembers_logOnly [OF logOnly_sendError])
  next
    fix tid tu dmRoom created d'
    assume eq: "initiate_dm cfg e i user target s
                  = openDm cfg e i user tid tu dmRoom created (s\<lparr>database := d'\<rparr>)"
      and g: "roomsGrow (rooms (database s)) (rooms d')"
      and r: "dmRoom \<in> set (rooms d')" "r_type dmRoom = js ''direct''"
        "u_id user \<in> set (r_participants dmRoom)" "tid \<in> set (r_participants dmRoom)"
    have "attachedAreMembers (openDm cfg e i user tid tu dmRoom created (s\<lparr>database := d'\<rparr>))"
      using am one wellFormed_database [OF wf g] user r
      by (intro attachedAreMembers_openDm) simp_all
    with eq show ?thesis by simp
  qed
qed

lemma set_status_maps:
  "connectedSockets (set_status e i u data s) = connectedSockets s
   \<and> activeChats (set_status e i u data s) = activeChats s"
  by (auto simp: set_status_def Let_def logOnly_fields [OF logOnly_broadcastPresenceUpdate]
        split: option.splits prod.splits)

lemma attachedAreMembers_disconnect:
  assumes am: "attachedAreMembers s" and one: "single s" and wf: "wellFormed s"
    and user: "map_of (sockets s) i = Some user"
  shows "attachedAreMembers (disconnect e i user s)"
proof -
  let ?s0 = "s\<lparr>subscriptions := filter (\<lambda>(sid, r). sid \<noteq> i) (subscriptions s)\<rparr>"
  let ?s1 = "leaveCurrentChat e i user ?s0"
  from wf have wf0: "wellFormed ?s0" by (rule wellFormed_grow) simp_all
  have am0: "attachedAreMembers ?s0" using am attachedAreMembers_cong [of ?s0 s] by simp
  have one0: "single ?s0" using one by (simp add: single_def)
  have user0: "map_of (sockets ?s0) i = Some user" using user by simp
  have am1: "attachedAreMembers ?s1"
    using am0 one0 wf0 user0 by (rule attachedAreMembers_leave)
  from disconnect_shape [where e = e and i = i and u = user and s = s] obtain us d' where
    lo: "logOnly (?s1\<lparr>userSockets := us,
                      connectedSockets := AList.delete i (connectedSockets ?s1),
                      sockets := AList.delete i (sockets s), database := d'\<rparr>) (disconnect e i user s)"
    by blast
  let ?s2 = "?s1\<lparr>userSockets := us, connectedSockets := AList.delete i (connectedSockets ?s1),
                  sockets := AList.delete i (sockets s), database := d'\<rparr>"
  have cs: "map_of (connectedSockets ?s2) = (map_of (connectedSockets ?s1))(i := None)"
    by (simp add: delete_conv')
  have mem: "\<And>c. membersOf ?s2 c = membersOf ?s1 c"
    by (simp add: membersOf_def)
  have "attachedTo ?s1 c u" if "attachedTo ?s2 c u" for c u
    using that unfolding attachedTo_iff cs by (auto split: if_splits)
  with am1 have "attachedAreMembers ?s2"
    unfolding attachedAreMembers_def mem by blast
  with lo show ?thesis by (rule attachedAreMembers_logOnly)
qed

lemma attachedAreMembers_connection:
  assumes am: "attachedAreMembers s" and wf: "wellFormed s" and fresh: "map_of (sockets s) i = None"
  shows "attachedAreMembers (connection e i socketUser s)"
proof (cases socketUser)
  case None
  with am show ?thesis by (simp add: connection_def)
next
  case (Some user)
  show ?thesis
  proof (cases "u_id user = []")
    case True
    with Some am show ?thesis by (simp add: connection_def)
  next
    case False
    define us where "us = AList.map_entry (u_id user) (set_add i)
                 (if map_of (userSockets s) (u_id user) = None
                  then AList.update (u_id user) [] (userSockets s) else userSockets s)"
    let ?sd = "\<lparr> userId = u_id user, username = u_username user,
                  currentChatId = None, currentChatType = None \<rparr>"
    let ?s1 = "s\<lparr>userSockets := us,
                  connectedSockets := AList.update i ?sd (connectedSockets s),
                  sockets := AList.update i user (sockets s)\<rparr>"
    have eq: "connection e i socketUser s = handleUserConnect e i user ?s1"
      using Some False by (simp add: connection_def Let_def us_def)
    have cs: "map_of (connectedSockets ?s1) = (map_of (connectedSockets s))(i \<mapsto> ?sd)"
      by (simp add: update_conv')
    have mem: "\<And>c. membersOf ?s1 c = membersOf s c"
      by (simp add: membersOf_def)
    have "attachedTo s c u" if "attachedTo ?s1 c u" for c u
      using that unfolding attachedTo_iff cs by (auto split: if_splits)
    with am have am1: "attachedAreMembers ?s1"
      unfolding attachedAreMembers_def mem by blast
    from handleUserConnect_shape [where s = ?s1 and e = e and i = i and u = user] obtain d' where
      lo: "logOnly (?s1\<lparr>database := d'\<rparr>) (handleUserConnect e i user ?s1)"
      by blast
    from am1 have "attachedAreMembers (?s1\<lparr>database := d'\<rparr>)" by simp
    with lo have "attachedAreMembers (handleUserConnect e i user ?s1)"
      by (rule attachedAreMembers_logOnly)
    with eq show ?thesis by simp
  qed
qed

lemma attachedAreMembers_step:
  assumes am: "attachedAreMembers s" and one: "single s" and wf: "wellFormed s"
  shows "attachedAreMembers (step cfg ev s)"
proof -
  obtain i req e where ev: "ev = (i, req, e)" by (cases ev)
  show ?thesis
  proof (cases "map_of (sockets s) i")
    case None
    with am wf ev show ?thesis
      by (cases req) (simp_all add: step_def attachedAreMembers_connection)
  next
    case (Some user)
    have "attachedAreMembers (handle cfg e i user req s)"
    proof (cases req)
      case (Connection x)
      with am show ?thesis by simp
    next
      case (JoinChat x)
      with am one wf Some show ?thesis by (simp add: attachedAreMembers_join_chat)
    next
      case (InitiateDm x)
      with am one wf Some show ?thesis by (simp add: attachedAreMembers_initiate_dm)
    next
      case (SendMessage x)
      have "attachedAreMembers (deliverMessage e i user c t m s)" for c t m
        using am attachedAreMembers_cong [of "deliverMessage e i user c t m s" s] by simp
      with am chat_message_shape [of e i user x s] SendMessage show ?thesis
        by (auto simp: attachedAreMembers_logOnly [OF logOnly_sendError])
    next
      case (TypingReq x)
      with am show ?thesis
        by (simp add: typing_def attachedAreMembers_logOnly [OF logOnly_typingRelay])
    next
      case (StopTypingReq x)
      with am show ?thesis
        by (simp add: stop_typing_def attachedAreMembers_logOnly [OF logOnly_typingRelay])
    next
      case (SetStatus x)
      with am attachedAreMembers_cong [of "set_status e i user x s" s] show ?thesis
        by (simp add: set_status_maps)
    next
      case Disconnect
      with am one wf Some show ?thesis by (simp add: attachedAreMembers_disconnect)
    qed
    with Some ev show ?thesis by (simp add: step_def)
  qed
qed

lemma attachedAreMembers_run:
  "attachedAreMembers s \<Longrightarrow> wellFormed s \<Longrightarrow> singleThroughout cfg evs s \<Longrightarrow>
     attachedAreMembers (run cfg evs s)"
proof (induction evs arbitrary: s)
  case Nil
  then show ?case by simp
next
  case (Cons ev evs)
  from Cons.prems have "attachedAreMembers (step cfg ev s)" "wellFormed (step cfg ev s)"
      "singleThroughout cfg evs (step cfg ev s)"
    by (simp_all add: attachedAreMembers_step wellFormed_step)
  then show ?case by (simp add: Cons.IH)
qed

lemma attachedAreMembers_startup:
  assumes "startup cfg e d = Some s0"
  shows "attachedAreMembers s0"
proof -
  have "connectedSockets s0 = []"
    using assms
    by (auto simp: startup_def ensureDefaultRoom_def emptyState_def Let_def
          split: option.splits if_splits)
  then show ?thesis
    by (simp add: attachedAreMembers_def attachedTo_def)
qed

section \<open>Membership and attachment\<close>


text \<open>
  The other direction fails as well once an identity has two connections: alice opens a
  second connection \<open>s3\<close>, joins \<open>general\<close> with it and moves it on to a new room; she is
  taken out of the member set of \<open>general\<close> while \<open>s1\<close> is still attached to it.
\<close>

lemma second_connection_leaves:
  "missingMember
     (run demoConfig
        [(js ''s3'', Connection (Some alice), laterEnv), (js ''s3'', joinRoom ''general'', laterEnv),
         (js ''s3'', joinRoom ''random'', laterEnv)] lobby)
     (js ''general'') aliceId"
  by code_simp



section \<open>Entries of the membership map are never removed\<close>

lemma chatMeta_cong: "activeChats s' = activeChats s \<Longrightarrow> chatMeta s' c = chatMeta s c"
  by (simp add: chatMeta_def)

lemma chatMeta_logOnly: "logOnly s s' \<Longrightarrow> chatMeta s' c = chatMeta s c"
  by (simp add: chatMeta_def logOnly_fields)

lemma chatMeta_leave: "chatMeta (leaveCurrentChat e i u s) c = chatMeta s c"
proof (cases "attachment s i")
  case None
  then show ?thesis by (simp add: leaveCurrentChat_skip)
next
  case (Some ct)
  obtain c' t where "ct = (c', t)" by (cases ct)
  with Some have "attachment s i = Some (c', t)" by simp
  from leaveCurrentChat_activeChats [OF this, of e u] show ?thesis
    by (cases "map_of (activeChats s) c'") (simp_all add: chatMeta_def)
qed

lemma chatMeta_join:
  "chatMeta s c = Some m \<Longrightarrow> chatMeta (joinSocketToChat e i u c' t n d s) c = Some m"
proof (cases "map_of (connectedSockets s) i")
  case None
  assume "chatMeta s c = Some m"
  with None show ?thesis by (simp add: joinSocketToChat_unconnected)
next
  case (Some sd)
  assume "chatMeta s c = Some m"
  with joinSocketToChat_activeChats [OF Some, of e u c' t n d] show ?thesis
    by (auto simp: chatMeta_def split: option.splits)
qed

lemma chatMeta_completeJoin:
  "chatMeta s c = Some m \<Longrightarrow> chatMeta (completeJoin cfg e i u t chat s) c = Some m"
  using chatMeta_logOnly [OF completeJoin_logOnly] by (simp add: chatMeta_join)

lemma chatMeta_database [simp]: "chatMeta (s\<lparr>database := d\<rparr>) c = chatMeta s c"
  by (simp add: chatMeta_def)

lemma chatMeta_sendError [simp]: "chatMeta (sendError i m s) c = chatMeta s c"
  by (simp add: chatMeta_def)

lemma chatMeta_join_chat:
  assumes "chatMeta s c = Some m"
  shows "chatMeta (join_chat cfg e i u data s) c = Some m"
proof -
  from join_chat_shape [of cfg e i u data s] show ?thesis
  proof (elim disjE exE conjE)
    fix msg assume "join_chat cfg e i u data s = sendError i msg s"
    with assms show ?thesis by simp
  next
    fix msg d'
    assume "join_chat cfg e i u data s = sendError i msg ((leaveCurrentChat e i u s)\<lparr>database := d'\<rparr>)"
    with assms show ?thesis by (simp add: chatMeta_leave)
  next
    fix t chat d'
    assume "join_chat cfg e i u data s
              = completeJoin cfg e i u t chat ((leaveCurrentChat e i u s)\<lparr>database := d'\<rparr>)"
    with assms show ?thesis by (simp add: chatMeta_completeJoin chatMeta_leave)
  qed
qed

lemma chatMeta_openDm:
  assumes "chatMeta s c = Some m"
  shows "chatMeta (openDm cfg e i u tid tu dmRoom created s) c = Some m"
proof -
  from openDm_steps [where e = e and i = i and u = u and dmRoom = dmRoom and tu = tu and s = s
      and cfg = cfg and tid = tid and created = created]
  obtain chats where
    lo: "logOnly
      (joinSocketToChat e i u (r_id dmRoom) (js ''direct'')
         (Some (v_username (formatUserForClient tu))) (r_id dmRoom)
         (leaveCurrentChat e i u (s\<lparr>activeChats := chats\<rparr>)))
      (openDm cfg e i u tid tu dmRoom created s)"
    and meta: "\<And>c m. chatMeta s c = Some m \<Longrightarrow>
             map_option (\<lambda>chat. (chatName chat, chatType chat, dbId chat)) (map_of chats c) = Some m"
    by blast
  from meta [OF assms] have "chatMeta (s\<lparr>activeChats := chats\<rparr>) c = Some m"
    by (simp add: chatMeta_def)
  then have "chatMeta (leaveCurrentChat e i u (s\<lparr>activeChats := chats\<rparr>)) c = Some m"
    by (simp add: chatMeta_leave)
  then have "chatMeta (joinSocketToChat e i u (r_id dmRoom) (js ''direct'')
         (Some (v_username (formatUserForClient tu))) (r_id dmRoom)
         (leaveCurrentChat e i u (s\<lparr>activeChats := chats\<rparr>))) c = Some m"
    by (rule chatMeta_join)
  with chatMeta_logOnly [OF lo] show ?thesis by simp
qed

lemma chatMeta_initiate_dm:
  assumes "chatMeta s c = Some m"
  shows "chatMeta (initiate_dm cfg e i u target s) c = Some m"
proof -
  from initiate_dm_shape [of cfg e i u target s] show ?thesis
  proof (elim disjE exE conjE)
    fix msg d'
    assume "initiate_dm cfg e i u target s = sendError i msg (s\<lparr>database := d'\<rparr>)"
    with assms show ?thesis by simp
  next
    fix tid tu dmRoom created d'
    assume "initiate_dm cfg e i u target s = openDm cfg e i u tid tu dmRoom created (s\<lparr>database := d'\<rparr>)"
    with assms show ?thesis by (simp add: chatMeta_openDm)
  qed
qed

lemma chatMeta_disconnect: "chatMeta (disconnect e i u s) c = chatMeta s c"
proof -
  from disconnect_shape [where e = e and i = i and u = u and s = s] obtain us d' where
    lo: "logOnly
       ((leaveCurrentChat e i u
           (s\<lparr>subscriptions := filter (\<lambda>(sid, r). sid \<noteq> i) (subscriptions s)\<rparr>))
          \<lparr>userSockets := us,
            connectedSockets :=
              AList.delete i (connectedSockets
                (leaveCurrentChat e i u
                   (s\<lparr>subscriptions := filter (\<lambda>(sid, r). sid \<noteq> i) (subscriptions s)\<rparr>))),
            sockets := AList.delete i (sockets s), database := d'\<rparr>)
       (disconnect e i u s)"
    by blast
  have "chatMeta (leaveCurrentChat e i u
           (s\<lparr>subscriptions := filter (\<lambda>(sid, r). sid \<noteq> i) (subscriptions s)\<rparr>)) c = chatMeta s c"
    by (simp add: chatMeta_leave) (simp add: chatMeta_def)
  then show ?thesis
    unfolding chatMeta_logOnly [OF lo] by (simp add: chatMeta_def)
qed

lemma chatMeta_connection: "chatMeta (connection e i socketUser s) c = chatMeta s c"
proof (cases socketUser)
  case None
  then show ?thesis by (simp add: connection_def)
next
  case (Some user)
  show ?thesis
  proof (cases "u_id user = []")
    case True
    with Some show ?thesis by (simp add: connection_def)
  next
    case False
    define s1 where "s1 = s\<lparr>userSockets := AList.map_entry (u_id user) (set_add i)
                 (if map_of (userSockets s) (u_id user) = None
                  then AList.update (u_id user) [] (userSockets s) else userSockets s),
                  connectedSockets := AList.update i \<lparr> userId = u_id user, username = u_username user,
                  currentChatId = None, currentChatType = None \<rparr> (connectedSockets s),
                  sockets := AList.update i user (sockets s)\<rparr>"
    have eq: "connection e i socketUser s = handleUserConnect e i user s1"
      using Some False by (simp add: connection_def Let_def s1_def)
    from handleUserConnect_shape [where s = s1 and e = e and i = i and u = user] obtain d' where
      lo: "logOnly (s1\<lparr>database := d'\<rparr>) (handleUserConnect e i user s1)"
      by blast
    have "chatMeta s1 c = chatMeta s c" by (simp add: chatMeta_def s1_def)
    with chatMeta_logOnly [OF lo] eq show ?thesis by simp
  qed
qed

lemma chatMeta_step:
  assumes "chatMeta s c = Some m"
  shows "chatMeta (step cfg ev s) c = Some m"
proof -
  obtain i req e where ev: "ev = (i, req, e)" by (cases ev)
  show ?thesis
  proof (cases "map_of (sockets s) i")
    case None
    with assms ev show ?thesis
      by (cases req) (simp_all add: step_def chatMeta_connection)
  next
    case (Some user)
    have "chatMeta (handle cfg e i user req s) c = Some m"
    proof (cases req)
      case (Connection x)
      with assms show ?thesis by simp
    next
      case (JoinChat x)
      with assms show ?thesis by (simp add: chatMeta_join_chat)
    next
      case (InitiateDm x)
      with assms show ?thesis by (simp add: chatMeta_initiate_dm)
    next
      case (SendMessage x)
      have "chatMeta (deliverMessage e i user c' t msg s) c = chatMeta s c" for c' t msg
        by (simp add: chatMeta_def)
      with assms chat_message_shape [of e i user x s] SendMessage show ?thesis
        by auto
    next
      case (TypingReq x)
      with assms show ?thesis
        by (simp add: typing_def chatMeta_logOnly [OF logOnly_typingRelay])
    next
      case (StopTypingReq x)
      with assms show ?thesis
        by (simp add: stop_typing_def chatMeta_logOnly [OF logOnly_typingRelay])
    next
      case (SetStatus x)
      with assms show ?thesis by (simp add: chatMeta_def set_status_maps)
    next
      case Disconnect
      with assms show ?thesis by (simp add: chatMeta_disconnect)
    qed
    with Some ev show ?thesis by (simp add: step_def)
  qed
qed

lemma chatMeta_run: "chatMeta s c = Some m \<Longrightarrow> chatMeta (run cfg evs s) c = Some m"
  by (induction evs arbitrary: s) (simp_all add: chatMeta_step)

lemma leaveCurrentChat_entry:
  assumes "attachment s i = Some (c, t)" and "map_of (activeChats s) c = Some chat"
  shows "map_of (activeChats (leaveCurrentChat e i u s)) c
           = Some (chat\<lparr>members := set_delete (u_id u) (members chat)\<rparr>)"
  using leaveCurrentChat_activeChats [OF assms(1), of e u] assms(2) by simp

text \<open>
  Claim C9. The leave sequence of a socket attached to chat \<open>c\<close> replaces the entry of \<open>c\<close>
  in \<open>activeChats\<close> by the same entry with the user taken out of the member set, whether or
  not the set becomes empty; and no sequence of events whatsoever removes an entry or
  changes its name, type or database id.
\<close>

theorem C9_entries_stay:
  "(attachment s i = Some (c, t) \<and> map_of (activeChats s) c = Some chat \<longrightarrow>
      map_of (activeChats (leaveCurrentChat e i u s)) c
        = Some (chat\<lparr>members := set_delete (u_id u) (members chat)\<rparr>))
   \<and> (chatMeta s c = Some m \<longrightarrow> chatMeta (run cfg evs s) c = Some m)"
  by (simp add: leaveCurrentChat_entry chatMeta_run)

theorem C9_entries_stay_witness:
  "map_of (activeChats
       (leaveCurrentChat quietEnv (js ''s2'') bob (leaveCurrentChat quietEnv (js ''s1'') alice lobby)))
     (js ''general'')
     = Some \<lparr> chatName = Some (js ''General''), chatType = js ''room'',
              dbId = js ''aaaaaaaaaaaaaaaaaaaaaaaa'', members = [] \<rparr>
   \<and> chatMeta (run demoConfig [(js ''s1'', Disconnect, laterEnv), (js ''s2'', Disconnect, laterEnv)] lobby)
       (js ''general'')
     = Some (Some (js ''General''), js ''room'', js ''aaaaaaaaaaaaaaaaaaaaaaaa'')"
proof -
  let ?s1 = "leaveCurrentChat quietEnv (js ''s1'') alice lobby"
  have a: "attachment ?s1 (js ''s2'') = Some (js ''general'', js ''room'')
           \<and> map_of (activeChats ?s1) (js ''general'')
               = Some \<lparr> chatName = Some (js ''General''), chatType = js ''room'',
                        dbId = js ''aaaaaaaaaaaaaaaaaaaaaaaa'', members = [bobId] \<rparr>"
    by code_simp
  have b: "chatMeta lobby (js ''general'')
             = Some (Some (js ''General''), js ''room'', js ''aaaaaaaaaaaaaaaaaaaaaaaa'')"
    by code_simp
  have c: "set_delete (u_id bob) [bobId] = []" by code_simp
  let ?gen = "\<lparr> chatName = Some (js ''General''), chatType = js ''room'',
                 dbId = js ''aaaaaaaaaaaaaaaaaaaaaaaa'', members = [bobId] \<rparr>"
  from a C9_entries_stay [where s = ?s1 and i = "js ''s2''" and c = "js ''general''"
        and t = "js ''room''" and e = quietEnv and u = bob and chat = ?gen]
  have "map_of (activeChats (leaveCurrentChat quietEnv (js ''s2'') bob ?s1)) (js ''general'')
          = Some (?gen\<lparr>members := set_delete (u_id bob) (members ?gen)\<rparr>)"
    by blast
  then have 1: "map_of (activeChats (leaveCurrentChat quietEnv (js ''s2'') bob ?s1)) (js ''general'')
          = Some \<lparr> chatName = Some (js ''General''), chatType = js ''room'',
                   dbId = js ''aaaaaaaaaaaaaaaaaaaaaaaa'', members = [] \<rparr>"
    using c by simp
  from b C9_entries_stay [where s = lobby and c = "js ''general''" and cfg = demoConfig
        and m = "(Some (js ''General''), js ''room'', js ''aaaaaaaaaaaaaaaaaaaaaaaa'')"
        and evs = "[(js ''s1'', Disconnect, laterEnv), (js ''s2'', Disconnect, laterEnv)]"]
  have 2: "chatMeta (run demoConfig [(js ''s1'', Disconnect, laterEnv), (js ''s2'', Disconnect, laterEnv)] lobby)
       (js ''general'')
     = Some (Some (js ''General''), js ''room'', js ''aaaaaaaaaaaaaaaaaaaaaaaa'')"
    by blast
  from 1 2 show ?thesis by (rule conjI)
qed

section \<open>The offline broadcast on the last disconnect\<close>

text \<open>
  Claim C3 on the code. In \<open>lobby\<close> alice has the single connection \<open>s1\<close> and shares the
  room \<open>general\<close> with bob, so that a presence broadcast for alice would notify bob. When
  \<open>s1\<close> disconnects, alice's persisted status becomes \<open>offline\<close> and her entry in
  \<open>userSockets\<close> is removed, but no presence update is emitted at all: the handler has
  taken alice out of the member set of \<open>general\<close> before it computes whom to notify.
\<close>

theorem C3_offline_broadcast_missed:
  "map_of (userSockets lobby) aliceId = Some [js ''s1'']
   \<and> usersToNotify (activeChats lobby) aliceId = [bobId]
   \<and> presenceEvents (emitted (step demoConfig (js ''s1'', Disconnect, laterEnv) lobby)) = []
   \<and> map_option u_status
        (findUserById (database (step demoConfig (js ''s1'', Disconnect, laterEnv) lobby)) aliceId)
       = Some (Some (js ''offline''))
   \<and> map_of (userSockets (step demoConfig (js ''s1'', Disconnect, laterEnv) lobby)) aliceId = None"
  by code_simp

text \<open>
  The direct-conversation case shows the design the handler carries out: a member who stays
  in a member set (here bob, put there by alice's \<open>initiate dm\<close>) is notified when the other
  member's last connection closes.
\<close>

lemma offline_broadcast_reaches_dm_partner:
  "map fst (presenceEvents (emitted
       (run demoConfig
          [(js ''s1'', InitiateDm (Some bobId), laterEnv), (js ''s2'', Disconnect, laterEnv)] lobby)))
     = [ToSocket (js ''s1'')]"
  by code_simp

end
